theory Spec2Isabelle
  imports Complex_Main "HOL-Library.Multiset" "HOL-Library.Log_Nat"
begin

section \<open>Spaced-repetition scheduler (module SRS)\<close>

text \<open>
  JavaScript numbers are IEEE 754 double-precision numbers. Counters, day intervals,
  quality scores and millisecond timestamps are integers and are modelled as \<open>int\<close>
  (sums and products of integers below \<open>2^53\<close> are exact); the ease factor is a
  \<open>real\<close>, and every arithmetic operation on it rounds its exact result to the
  nearest double, as in the source. \<open>NaN\<close> and the infinities are not modelled: the
  model follows the code as long as no result exceeds the largest double. \<open>null\<close>
  timestamps are \<open>None\<close>. \<open>Date.now()\<close> is an input of the model: every call of it in
  the source is one clock-reading argument of the embedding, in the order in which the
  source reads it.
\<close>

record srs_state =
  repetitions :: int
  easeFactor :: real
  interval :: int
  nextReview :: "int option"
  lastReview :: "int option"

record word_stats =
  flashcardCorrect :: int
  flashcardIncorrect :: int
  spellingCorrect :: int
  spellingIncorrect :: int
  matchingCorrect :: int
  matchingIncorrect :: int

text \<open>Strings are sequences of UTF-16 code units, as in JavaScript.\<close>

type_synonym jstring = "nat list"

text \<open>
  A stored word, as built by \<open>createWordEntry\<close>; only the fields the scheduler and the
  study modes read are kept. \<open>srs\<close> is optional because \<open>SRS.getLevel\<close>,
  \<open>SRS.reviewWord\<close> and \<open>SRS.getDueWords\<close> all guard against its absence.
\<close>

record vocab_word =
  word_id :: jstring
  word_text :: jstring
  srs :: "srs_state option"
  stats :: word_stats
  updatedAt :: int

datatype level = New | Learning | Reviewing | Mastered

datatype js_error = TypeError | RangeError

subsection \<open>Double-precision arithmetic\<close>

text \<open>
  \<open>ilog2 x\<close> is the binary exponent of a positive number: the integer \<open>k\<close> with
  \<open>2^k \<le> x < 2^(k + 1)\<close>.
\<close>

definition ilog2 :: "real \<Rightarrow> int" where
  "ilog2 x = (if 1 \<le> x then bitlen \<lfloor>x\<rfloor> - 1 else - bitlen (\<lceil>1 / x\<rceil> - 1))"

text \<open>The nearest integer, ties to the even one.\<close>

definition round_even :: "real \<Rightarrow> int" where
  "round_even m =
    (let f = \<lfloor>m\<rfloor>; r = m - of_int f
     in if r < 1 / 2 then f
        else if 1 / 2 < r then f + 1
        else if even f then f else f + 1)"

text \<open>
  The double nearest to a real number (round to nearest, ties to even): a 53-bit
  significand, so the doubles near \<open>x\<close> are the multiples of \<open>2^(ilog2 |x| - 52)\<close>,
  and of \<open>2^(-1074)\<close> in the subnormal range.
\<close>

definition to_double :: "real \<Rightarrow> real" where
  "to_double x =
    (if x = 0 then 0
     else (let e = max (ilog2 \<bar>x\<bar> - 52) (- 1074)
           in of_int (round_even (x / 2 powi e)) * 2 powi e))"

text \<open>The operators \<open>+\<close>, \<open>-\<close>, \<open>*\<close> and \<open>/\<close> on doubles.\<close>

definition js_add :: "real \<Rightarrow> real \<Rightarrow> real" where
  "js_add a b = to_double (a + b)"

definition js_sub :: "real \<Rightarrow> real \<Rightarrow> real" where
  "js_sub a b = to_double (a - b)"

definition js_mul :: "real \<Rightarrow> real \<Rightarrow> real" where
  "js_mul a b = to_double (a * b)"

definition js_div :: "real \<Rightarrow> real \<Rightarrow> real" where
  "js_div a b = to_double (a / b)"

subsection \<open>The scheduler\<close>

text \<open>The literal \<open>1.3\<close> denotes the double nearest to it; \<open>2.5\<close> is a double.\<close>

definition MIN_EASE_FACTOR :: real where
  "MIN_EASE_FACTOR = to_double (13 / 10)"

definition DEFAULT_EASE_FACTOR :: real where
  "DEFAULT_EASE_FACTOR = 5 / 2"

text \<open>
  \<open>Math.round\<close>: the nearest integer, ties towards positive infinity; it is computed
  exactly on the double it is given.
\<close>

definition Math_round :: "real \<Rightarrow> int" where
  "Math_round x = \<lfloor>x + 1 / 2\<rfloor>"

text \<open>
  \<open>!t\<close> for a timestamp field: \<open>null\<close> and the number \<open>0\<close> are both falsy.
\<close>

definition js_not :: "int option \<Rightarrow> bool" where
  "js_not t = (case t of None \<Rightarrow> True | Some n \<Rightarrow> n = 0)"

text \<open>
  The ease-factor expression of the source,
  \<open>easeFactor + (0.1 - (5 - quality) * (0.08 + (5 - quality) * 0.02))\<close>, operation by
  operation.
\<close>

definition ease_sum :: "int \<Rightarrow> real \<Rightarrow> real" where
  "ease_sum quality ef =
    js_add ef
      (js_sub (to_double (1 / 10))
         (js_mul (of_int (5 - quality))
            (js_add (to_double (8 / 100))
               (js_mul (of_int (5 - quality)) (to_double (2 / 100))))))"

text \<open>
  \<open>SRS.calculate(quality, repetitions, easeFactor, interval)\<close>. \<open>now1\<close> is the clock
  reading used for \<open>nextReview\<close>, \<open>now2\<close> the later one stored in \<open>lastReview\<close>.
\<close>

definition calculate :: "int \<Rightarrow> int \<Rightarrow> int \<Rightarrow> int \<Rightarrow> real \<Rightarrow> int \<Rightarrow> srs_state" where
  "calculate now1 now2 quality reps ef iv =
    (let newInterval =
           (if quality \<ge> 3
            then (if reps = 0 then 1
                  else if reps = 1 then 6
                  else Math_round (js_mul (of_int iv) ef))
            else 1);
         newRepetitions = (if quality \<ge> 3 then reps + 1 else 0);
         ef0 = ease_sum quality ef;
         newEaseFactor = (if ef0 < MIN_EASE_FACTOR then MIN_EASE_FACTOR else ef0)
     in \<lparr> repetitions = newRepetitions,
          easeFactor = js_div (of_int (Math_round (js_mul newEaseFactor 100))) 100,
          interval = newInterval,
          nextReview = Some (now1 + newInterval * 24 * 60 * 60 * 1000),
          lastReview = Some now2 \<rparr>)"

text \<open>
  The outcome of a call of \<open>SRS.calculate\<close>. Its body contains no \<open>throw\<close> and no
  property access on a possibly missing object, only arithmetic and comparisons on its
  number arguments, so every call completes normally: there is no error branch.
\<close>

definition calculate_outcome ::
  "int \<Rightarrow> int \<Rightarrow> int \<Rightarrow> int \<Rightarrow> real \<Rightarrow> int \<Rightarrow> js_error + srs_state" where
  "calculate_outcome now1 now2 quality reps ef iv = Inr (calculate now1 now2 quality reps ef iv)"

definition initialData :: srs_state where
  "initialData = \<lparr> repetitions = 0, easeFactor = DEFAULT_EASE_FACTOR, interval = 0,
                   nextReview = None, lastReview = None \<rparr>"

text \<open>\<open>word.srs || initialData()\<close>\<close>

definition srs_or_initial :: "vocab_word \<Rightarrow> srs_state" where
  "srs_or_initial w = (case srs w of None \<Rightarrow> initialData | Some s \<Rightarrow> s)"

definition reviewWord :: "int \<Rightarrow> int \<Rightarrow> vocab_word \<Rightarrow> int \<Rightarrow> vocab_word" where
  "reviewWord now1 now2 w quality =
    (let s = srs_or_initial w
     in w\<lparr> srs := Some (calculate now1 now2 quality (repetitions s) (easeFactor s)
                          (interval s)) \<rparr>)"

definition getLevel :: "vocab_word \<Rightarrow> level" where
  "getLevel w =
    (let s = srs_or_initial w
     in if repetitions s = 0 \<and> js_not (lastReview s) then New
        else if repetitions s < 2 then Learning
        else if interval s \<ge> 21 then Mastered
        else Reviewing)"

text \<open>The filter predicate of \<open>SRS.getDueWords\<close>.\<close>

definition is_due :: "int \<Rightarrow> vocab_word \<Rightarrow> bool" where
  "is_due now w =
    (case srs w of
       None \<Rightarrow> True
     | Some s \<Rightarrow> (if js_not (nextReview s) then True
                 else (case nextReview s of Some t \<Rightarrow> t \<le> now | None \<Rightarrow> True)))"

text \<open>The sort key of \<open>SRS.getDueWords\<close>: \<open>(a.srs && a.srs.nextReview) || 0\<close>.\<close>

definition next_or_zero :: "vocab_word \<Rightarrow> int" where
  "next_or_zero w =
    (case srs w of
       None \<Rightarrow> 0
     | Some s \<Rightarrow> (case nextReview s of None \<Rightarrow> 0 | Some t \<Rightarrow> t))"

text \<open>
  \<open>SRS.getDueWords(words)\<close>, with \<open>now\<close> the value of \<open>Date.now()\<close> read at its start.
  \<open>Array.prototype.sort\<close> with the comparator \<open>aNext - bNext\<close> is a stable sort by
  that key; \<open>sort_key\<close> is the stable insertion sort.
\<close>

definition getDueWords :: "int \<Rightarrow> vocab_word list \<Rightarrow> vocab_word list" where
  "getDueWords now words = sort_key next_or_zero (filter (is_due now) words)"

text \<open>
  A sequence of reviews of one word through \<open>SRS.reviewWord\<close>; each review is
  (first clock reading, second clock reading, quality).
\<close>

fun review_seq :: "vocab_word \<Rightarrow> (int \<times> int \<times> int) list \<Rightarrow> vocab_word" where
  "review_seq w [] = w"
| "review_seq w ((now1, now2, q) # rs) = review_seq (reviewWord now1 now2 w q) rs"

text \<open>
  The spec's "rounded to 2 decimal places", in double arithmetic: the nearest integer
  to a hundred times the number, divided by a hundred.
\<close>

definition round2 :: "real \<Rightarrow> real" where
  "round2 x = js_div (of_int (Math_round (js_mul x 100))) 100"

text \<open>
  Well-formedness of a scheduling state: ease factor at least 1.3, a non-negative
  repetition count, and a positive interval once two consecutive passes are recorded.
\<close>

definition well_formed :: "srs_state \<Rightarrow> bool" where
  "well_formed s = (13 / 10 \<le> easeFactor s \<and> 0 \<le> repetitions s \<and>
                    (if 2 \<le> repetitions s then 1 \<le> interval s else True))"

text \<open>A review with a quality in 0..5, taken when the clock does not read 0.\<close>

definition valid_review :: "int \<times> int \<times> int \<Rightarrow> bool" where
  "valid_review r = (case r of (now1, now2, q) \<Rightarrow> 0 \<le> q \<and> q \<le> 5 \<and> now2 \<noteq> 0)"

text \<open>
  The spec's reading of the due set and of "never reviewed": \<open>nextReview\<close> is unset when
  the word has no scheduling state or the field is \<open>null\<close>.
\<close>

definition next_unset :: "vocab_word \<Rightarrow> bool" where
  "next_unset w = (case srs w of None \<Rightarrow> True | Some s \<Rightarrow> nextReview s = None)"

definition spec_due :: "int \<Rightarrow> vocab_word \<Rightarrow> bool" where
  "spec_due now w =
    (case srs w of
       None \<Rightarrow> True
     | Some s \<Rightarrow> (case nextReview s of None \<Rightarrow> True | Some t \<Rightarrow> t \<le> now))"

text \<open>Every stored \<open>nextReview\<close> is a real timestamp, after the epoch.\<close>

definition real_timestamps :: "vocab_word list \<Rightarrow> bool" where
  "real_timestamps ws =
    list_all (\<lambda>w. case srs w of
                     None \<Rightarrow> True
                   | Some s \<Rightarrow> (case nextReview s of None \<Rightarrow> True | Some t \<Rightarrow> 0 < t)) ws"

section \<open>Text extraction (module OCRProcessor)\<close>

subsection \<open>Character classes\<close>

text \<open>
  The regular expressions of the source carry no \<open>u\<close> or \<open>i\<close> flag, so they work on
  single UTF-16 code units. \<open>is_space\<close> is the class \<open>\s\<close>, which is also the set that
  \<open>String.prototype.trim\<close> strips; \<open>is_dot\<close> is \<open>.\<close>, every code unit but the four
  line terminators.
\<close>

definition is_digit :: "nat \<Rightarrow> bool" where
  "is_digit c = (48 \<le> c \<and> c \<le> 57)"

definition is_latin :: "nat \<Rightarrow> bool" where
  "is_latin c = ((97 \<le> c \<and> c \<le> 122) \<or> (65 \<le> c \<and> c \<le> 90))"

definition is_word_char :: "nat \<Rightarrow> bool" where
  "is_word_char c = (is_latin c \<or> is_digit c \<or> c = 95)"

definition is_space :: "nat \<Rightarrow> bool" where
  "is_space c = ((9 \<le> c \<and> c \<le> 13) \<or> c = 32 \<or> c = 160 \<or> c = 5760 \<or>
                 (8192 \<le> c \<and> c \<le> 8202) \<or> c = 8232 \<or> c = 8233 \<or> c = 8239 \<or>
                 c = 8287 \<or> c = 12288 \<or> c = 65279)"

definition is_dot :: "nat \<Rightarrow> bool" where
  "is_dot c = (c \<noteq> 10 \<and> c \<noteq> 13 \<and> c \<noteq> 8232 \<and> c \<noteq> 8233)"

text \<open>The class of the code units U+3040..U+309F, U+30A0..U+30FF, U+4E00..U+9FFF, U+3400..U+4DBF.\<close>

definition is_japanese :: "nat \<Rightarrow> bool" where
  "is_japanese c = ((12352 \<le> c \<and> c \<le> 12447) \<or> (12448 \<le> c \<and> c \<le> 12543) \<or>
                    (19968 \<le> c \<and> c \<le> 40959) \<or> (13312 \<le> c \<and> c \<le> 19903))"

text \<open>Opening brackets: \<open>[\<close>, fullwidth \<open>(\<close> (U+FF08), \<open>(\<close>; closing: \<open>]\<close>, U+FF09, \<open>)\<close>.\<close>

definition is_open_bracket :: "nat \<Rightarrow> bool" where
  "is_open_bracket c = (c = 91 \<or> c = 65288 \<or> c = 40)"

definition is_close_bracket :: "nat \<Rightarrow> bool" where
  "is_close_bracket c = (c = 93 \<or> c = 65289 \<or> c = 41)"

text \<open>
  The part-of-speech tags, in the order of the source: U+5F62, U+540D, U+52D5, U+526F,
  U+63A5, U+524D (adjective, noun, verb, adverb, conjunction, preposition), and in the
  longer list also U+52A9, U+9593, U+4EE3.
\<close>

definition pos_tags6 :: "nat list" where
  "pos_tags6 = [24418, 21517, 21205, 21103, 25509, 21069]"

definition pos_tags9 :: "nat list" where
  "pos_tags9 = [24418, 21517, 21205, 21103, 25509, 21069, 21161, 38291, 20195]"

text \<open>Synonym markers U+2252, U+2248, \<open>~\<close>, U+FF5E, U+985E, U+540C; antonym markers U+21D4, U+2194, U+53CD.\<close>

definition is_synonym_marker :: "nat \<Rightarrow> bool" where
  "is_synonym_marker c = (c = 8786 \<or> c = 8776 \<or> c = 126 \<or> c = 65374 \<or> c = 39006 \<or> c = 21516)"

definition is_antonym_marker :: "nat \<Rightarrow> bool" where
  "is_antonym_marker c = (c = 8660 \<or> c = 8596 \<or> c = 21453)"

subsection \<open>Strings\<close>

text \<open>\<open>s.trim()\<close>\<close>

definition trim :: "jstring \<Rightarrow> jstring" where
  "trim s = rev (dropWhile is_space (rev (dropWhile is_space s)))"

text \<open>\<open>s.split(d)\<close> for a one-character string \<open>d\<close>.\<close>

fun split_char :: "nat \<Rightarrow> jstring \<Rightarrow> jstring list" where
  "split_char d [] = [[]]"
| "split_char d (c # cs) =
     (if c = d then [] # split_char d cs
      else (case split_char d cs of
              [] \<Rightarrow> [[c]]
            | x # xs \<Rightarrow> (c # x) # xs))"

text \<open>
  \<open>s.split(/[...]+/)\<close> for a separator that is one or more characters of a class: the
  pieces between the maximal runs of separator characters, with an empty piece before
  a leading run and after a trailing one. \<open>acc\<close> is the current piece, reversed.
\<close>

function split_runs :: "(nat \<Rightarrow> bool) \<Rightarrow> jstring \<Rightarrow> jstring \<Rightarrow> jstring list" where
  "split_runs P acc [] = [rev acc]"
| "split_runs P acc (c # cs) =
     (if P c then rev acc # split_runs P [] (dropWhile P cs)
      else split_runs P (c # acc) cs)"
  by pat_completeness auto
termination
  by (relation "measure (\<lambda>(P, acc, s). length s)")
    (auto simp: length_dropWhile_le less_Suc_eq_le)

text \<open>
  \<open>toLowerCase\<close> on the headwords of the fallback extraction, which consist of Latin
  letters and white space only: the letters A to Z are mapped to a to z.
\<close>

definition toLowerCase :: "jstring \<Rightarrow> jstring" where
  "toLowerCase s = map (\<lambda>c. if 65 \<le> c \<and> c \<le> 90 then c + 32 else c) s"

subsection \<open>Regular expressions\<close>

text \<open>
  A backtracking matcher in the style of the ECMAScript specification. A matcher state
  is the number of code units before the current position, the rest of the input and
  the capture groups (\<open>None\<close> is \<open>undefined\<close>). A pattern maps a state to the list of
  the states in which it can end, in the order in which backtracking tries them; the
  match that the engine reports is the head of that list.
\<close>

record mstate =
  m_idx :: nat
  m_rest :: jstring
  m_caps :: "nat \<Rightarrow> jstring option"

type_synonym rx = "mstate \<Rightarrow> mstate list"

text \<open>One character of a class.\<close>

definition rx_class :: "(nat \<Rightarrow> bool) \<Rightarrow> rx" where
  "rx_class P st =
    (case m_rest st of
       [] \<Rightarrow> []
     | c # cs \<Rightarrow> (if P c then [st\<lparr> m_idx := Suc (m_idx st), m_rest := cs \<rparr>] else []))"

definition rx_chr :: "nat \<Rightarrow> rx" where
  "rx_chr c = rx_class (\<lambda>x. x = c)"

text \<open>Concatenation and alternation.\<close>

definition rx_seq :: "rx \<Rightarrow> rx \<Rightarrow> rx" where
  "rx_seq r1 r2 st = concat (map r2 (r1 st))"

fun rx_seqs :: "rx list \<Rightarrow> rx" where
  "rx_seqs [] = (\<lambda>st. [st])"
| "rx_seqs (r # rs) = rx_seq r (rx_seqs rs)"

definition rx_alts :: "rx list \<Rightarrow> rx" where
  "rx_alts rs st = concat (map (\<lambda>r. r st) rs)"

text \<open>
  A quantified character class: \<open>*\<close> is \<open>rx_many True 0 None\<close>, \<open>+\<close> is
  \<open>rx_many True 1 None\<close>, \<open>{2,}\<close> is \<open>rx_many True 2 None\<close>, \<open>{1,4}\<close> is
  \<open>rx_many True 1 (Some 4)\<close>, \<open>*?\<close> is \<open>rx_many False 0 None\<close>. A greedy
  quantifier tries the longest run first, a lazy one the shortest.
\<close>

definition rx_many :: "bool \<Rightarrow> nat \<Rightarrow> nat option \<Rightarrow> (nat \<Rightarrow> bool) \<Rightarrow> rx" where
  "rx_many greedy lo hi P st =
    (let run = length (takeWhile P (m_rest st));
         n = (case hi of None \<Rightarrow> run | Some h \<Rightarrow> min h run);
         ks = [lo..<Suc n]
     in map (\<lambda>k. st\<lparr> m_idx := m_idx st + k, m_rest := drop k (m_rest st) \<rparr>)
          (if greedy then rev ks else ks))"

text \<open>\<open>(...)?\<close>: the group first, then the empty match.\<close>

definition rx_opt :: "rx \<Rightarrow> rx" where
  "rx_opt r st = r st @ [st]"

text \<open>A capture group: records the text consumed by its body.\<close>

definition rx_group :: "nat \<Rightarrow> rx \<Rightarrow> rx" where
  "rx_group i r st =
    map (\<lambda>st'. st'\<lparr> m_caps := (m_caps st')(i := Some (take (m_idx st' - m_idx st) (m_rest st))) \<rparr>)
      (r st)"

text \<open>\<open>^\<close> and \<open>$\<close> (no \<open>m\<close> flag).\<close>

definition rx_bol :: rx where
  "rx_bol st = (if m_idx st = 0 then [st] else [])"

definition rx_eol :: rx where
  "rx_eol st = (if m_rest st = [] then [st] else [])"

text \<open>
  \<open>rx_exec_from r i s\<close> searches \<open>s\<close>, which starts at offset \<open>i\<close> of the input, for the
  leftmost match: the result is the offset of the match and its final state.
\<close>

fun rx_exec_from :: "rx \<Rightarrow> nat \<Rightarrow> jstring \<Rightarrow> (nat \<times> mstate) option" where
  "rx_exec_from r i [] =
     (case r \<lparr> m_idx = i, m_rest = [], m_caps = (\<lambda>_. None) \<rparr> of
        [] \<Rightarrow> None
      | st # _ \<Rightarrow> Some (i, st))"
| "rx_exec_from r i (c # cs) =
     (case r \<lparr> m_idx = i, m_rest = c # cs, m_caps = (\<lambda>_. None) \<rparr> of
        [] \<Rightarrow> rx_exec_from r (Suc i) cs
      | st # _ \<Rightarrow> Some (i, st))"

text \<open>\<open>s.match(r)\<close> for a pattern without the \<open>g\<close> flag, and \<open>r.test(s)\<close>.\<close>

definition rx_match :: "rx \<Rightarrow> jstring \<Rightarrow> (nat \<times> mstate) option" where
  "rx_match r s = rx_exec_from r 0 s"

definition rx_test :: "rx \<Rightarrow> jstring \<Rightarrow> bool" where
  "rx_test r s = (rx_match r s \<noteq> None)"

text \<open>\<open>m[k]\<close> of a match result.\<close>

definition capture :: "nat \<times> mstate \<Rightarrow> nat \<Rightarrow> jstring option" where
  "capture m k = m_caps (snd m) k"

subsection \<open>The patterns of the source\<close>

text \<open>\<open>/^\d{1,4}\s+[a-zA-Z]/\<close>\<close>

definition entryStartPattern :: rx where
  "entryStartPattern =
    rx_seqs [rx_bol, rx_many True 1 (Some 4) is_digit, rx_many True 1 None is_space,
             rx_class is_latin]"

text \<open>\<open>/^[a-zA-Z]{2,}\s*O/\<close>, \<open>O\<close> the class of the three opening brackets.\<close>

definition bracketMarkerPattern :: rx where
  "bracketMarkerPattern =
    rx_seqs [rx_bol, rx_many True 2 None is_latin, rx_many True 0 None is_space,
             rx_class is_open_bracket]"

text \<open>\<open>/^[a-zA-Z]{2,}\s+(t1|t2|t3|t4|t5|t6)/\<close> over the six part-of-speech tags.\<close>

definition posMarkerPattern :: rx where
  "posMarkerPattern =
    rx_seqs [rx_bol, rx_many True 2 None is_latin, rx_many True 1 None is_space,
             rx_group 1 (rx_alts (map rx_chr pos_tags6))]"

text \<open>\<open>/^(\d+\s+)?([a-zA-Z]{2,}(?:\s+[a-zA-Z]+)?)\s*/\<close>\<close>

definition rawWordPattern :: rx where
  "rawWordPattern =
    rx_seqs [rx_bol,
             rx_opt (rx_group 1 (rx_seqs [rx_many True 1 None is_digit,
                                          rx_many True 1 None is_space])),
             rx_group 2 (rx_seqs [rx_many True 2 None is_latin,
                                  rx_opt (rx_seqs [rx_many True 1 None is_space,
                                                   rx_many True 1 None is_latin])]),
             rx_many True 0 None is_space]"

text \<open>
  \<open>/O([^C]+)C/\<close>, \<open>C\<close> the class of the three closing brackets; \<open>parseEntry\<close> and
  \<open>extractWordsFromRawText\<close> write the same pattern with the members of the negated
  class in a different order.
\<close>

definition phoneticPattern :: rx where
  "phoneticPattern =
    rx_seqs [rx_class is_open_bracket,
             rx_group 1 (rx_many True 1 None (\<lambda>c. \<not> is_close_bracket c)),
             rx_class is_close_bracket]"

text \<open>\<open>/\d+\s+([a-zA-Z][\w\s-]*?)(?:\s*O|$|\s+[t1..t6])/\<close>\<close>

definition wordPattern :: rx where
  "wordPattern =
    rx_seqs [rx_many True 1 None is_digit, rx_many True 1 None is_space,
             rx_group 1 (rx_seqs [rx_class is_latin,
                                  rx_many False 0 None
                                    (\<lambda>c. is_word_char c \<or> is_space c \<or> c = 45)]),
             rx_alts [rx_seqs [rx_many True 0 None is_space, rx_class is_open_bracket],
                      rx_eol,
                      rx_seqs [rx_many True 1 None is_space,
                               rx_class (\<lambda>c. c \<in> set pos_tags6)]]]"

text \<open>\<open>/\d+\s+([a-zA-Z][\w-]+)/\<close>\<close>

definition simpleWordPattern :: rx where
  "simpleWordPattern =
    rx_seqs [rx_many True 1 None is_digit, rx_many True 1 None is_space,
             rx_group 1 (rx_seqs [rx_class is_latin,
                                  rx_many True 1 None (\<lambda>c. is_word_char c \<or> c = 45)])]"

text \<open>\<open>/(t1|t2|...|t9)/\<close> over the nine part-of-speech tags.\<close>

definition posPattern :: rx where
  "posPattern = rx_group 1 (rx_alts (map rx_chr pos_tags9))"

text \<open>\<open>/(?:t1|...|t9)\s*(J.+)/\<close> and \<open>/C\s*(J.+)/\<close>, \<open>J\<close> the Japanese class.\<close>

definition meaningAfterPosPattern :: rx where
  "meaningAfterPosPattern =
    rx_seqs [rx_alts (map rx_chr pos_tags9), rx_many True 0 None is_space,
             rx_group 1 (rx_seqs [rx_class is_japanese, rx_many True 1 None is_dot])]"

definition meaningAfterBracketPattern :: rx where
  "meaningAfterBracketPattern =
    rx_seqs [rx_class is_close_bracket, rx_many True 0 None is_space,
             rx_group 1 (rx_seqs [rx_class is_japanese, rx_many True 1 None is_dot])]"

subsection \<open>Parsed entries\<close>

record example_pair =
  en :: jstring
  ja :: jstring

record parsed_entry =
  word :: jstring
  meaning :: jstring
  phonetic :: jstring
  pos :: jstring
  examples :: "example_pair list"
  synonyms :: "jstring list"
  antonyms :: "jstring list"

datatype js_value = JUndefined | JNull | JBoolean bool | JNumber real | JString jstring | JObject

text \<open>\<open>!v\<close> (a \<open>NaN\<close> number is not modelled) and \<open>typeof v === 'string'\<close>.\<close>

definition js_falsy :: "js_value \<Rightarrow> bool" where
  "js_falsy v =
    (case v of
       JUndefined \<Rightarrow> True
     | JNull \<Rightarrow> True
     | JBoolean b \<Rightarrow> \<not> b
     | JNumber x \<Rightarrow> x = 0
     | JString s \<Rightarrow> s = []
     | JObject \<Rightarrow> False)"

definition is_string :: "js_value \<Rightarrow> bool" where
  "is_string v = (case v of JString s \<Rightarrow> True | _ \<Rightarrow> False)"

subsection \<open>Helpers\<close>

definition isJapaneseMajority :: "jstring \<Rightarrow> bool" where
  "isJapaneseMajority text =
    (let japaneseChars = length (filter is_japanese text);
         totalChars = length (filter (\<lambda>c. \<not> is_space c) text)
     in totalChars > 0 \<and> 10 * japaneseChars > 3 * totalChars)"

definition isEnglishMajority :: "jstring \<Rightarrow> bool" where
  "isEnglishMajority text =
    (let englishChars = length (filter is_latin text);
         totalChars = length (filter (\<lambda>c. \<not> is_space c) text)
     in totalChars > 0 \<and> 2 * englishChars > totalChars)"

text \<open>
  \<open>m[1].trim()\<close>: calling \<open>trim\<close> on an \<open>undefined\<close> capture group raises a
  \<open>TypeError\<close>.
\<close>

definition group_trim :: "nat \<times> mstate \<Rightarrow> nat \<Rightarrow> js_error + jstring" where
  "group_trim m k = (case capture m k of None \<Rightarrow> Inl TypeError | Some g \<Rightarrow> Inr (trim g))"

text \<open>
  \<open>x = m[1]\<close> without a method call. Group 1 takes part in every match of the pattern
  this is used with; an \<open>undefined\<close> group would be stored as it is and is read here as
  the empty string.
\<close>

definition group_text :: "nat \<times> mstate \<Rightarrow> nat \<Rightarrow> jstring" where
  "group_text m k = (case capture m k of None \<Rightarrow> [] | Some g \<Rightarrow> g)"

definition extractJapanesePart :: "jstring \<Rightarrow> jstring \<Rightarrow> js_error + jstring" where
  "extractJapanesePart line w =
    (case rx_match meaningAfterPosPattern line of
       Some m \<Rightarrow> group_trim m 1
     | None \<Rightarrow>
        (case rx_match meaningAfterBracketPattern line of
           Some m \<Rightarrow> group_trim m 1
         | None \<Rightarrow> Inr []))"

definition extractSynonyms :: "jstring \<Rightarrow> jstring list" where
  "extractSynonyms line =
    (let cleaned = dropWhile (\<lambda>c. is_synonym_marker c \<or> is_antonym_marker c \<or> is_space c) line
     in filter (\<lambda>s. (case s of [] \<Rightarrow> False | c # _ \<Rightarrow> is_latin c) \<and> length s > 1)
          (map trim (split_runs (\<lambda>c. c = 44 \<or> c = 12289 \<or> is_space c) [] cleaned)))"

subsection \<open>\<open>parseEntry\<close>\<close>

text \<open>
  \<open>xs.push(...ys)\<close> is a call with one argument for every element of \<open>ys\<close>. An
  engine accepts only a bounded number of arguments in one call and raises a
  \<open>RangeError\<close> beyond it. The bound depends on the engine and on the size of its
  stack; it is the parameter \<open>max_args\<close> of the model.
\<close>

definition push_spread :: "nat \<Rightarrow> 'a list \<Rightarrow> 'a list \<Rightarrow> js_error + 'a list" where
  "push_spread max_args xs ys =
    (if max_args < length ys then Inl RangeError else Inr (xs @ ys))"

text \<open>
  The body of the loop of \<open>parseEntry\<close> for a line after the first; the loop state is
  the entry and \<open>currentExample\<close>.
\<close>

definition parse_line ::
  "nat \<Rightarrow> parsed_entry \<times> example_pair \<Rightarrow> jstring \<Rightarrow> js_error + parsed_entry \<times> example_pair" where
  "parse_line max_args acc line =
    (case acc of (entry, cur) \<Rightarrow>
      if (case line of [] \<Rightarrow> False | c # _ \<Rightarrow> is_synonym_marker c)
      then (case push_spread max_args (synonyms entry) (extractSynonyms line) of
              Inl e \<Rightarrow> Inl e
            | Inr syns \<Rightarrow> Inr (entry\<lparr> synonyms := syns \<rparr>, cur))
      else if (case line of [] \<Rightarrow> False | c # _ \<Rightarrow> is_antonym_marker c)
      then (case push_spread max_args (antonyms entry) (extractSynonyms line) of
              Inl e \<Rightarrow> Inl e
            | Inr ants \<Rightarrow> Inr (entry\<lparr> antonyms := ants \<rparr>, cur))
      else if isJapaneseMajority line
      then (if meaning entry = [] then Inr (entry\<lparr> meaning := line \<rparr>, cur)
            else if en cur \<noteq> []
            then Inr (entry\<lparr> examples := examples entry @ [cur\<lparr> ja := line \<rparr>] \<rparr>,
                      \<lparr> en = [], ja = [] \<rparr>)
            else Inr (entry, cur))
      else if isEnglishMajority line
      then Inr ((if en cur \<noteq> [] then entry\<lparr> examples := examples entry @ [cur] \<rparr> else entry),
                \<lparr> en = line, ja = [] \<rparr>)
      else Inr (entry, cur))"

text \<open>The loop over the lines after the first; an exception ends it.\<close>

fun parse_lines ::
  "nat \<Rightarrow> parsed_entry \<times> example_pair \<Rightarrow> jstring list \<Rightarrow>
   js_error + parsed_entry \<times> example_pair" where
  "parse_lines max_args acc [] = Inr acc"
| "parse_lines max_args acc (line # rest) =
     (case parse_line max_args acc line of
        Inl e \<Rightarrow> Inl e
      | Inr acc' \<Rightarrow> parse_lines max_args acc' rest)"

text \<open>The headword of the first line: the main pattern, else the simple one, else empty.\<close>

definition extract_word :: "jstring \<Rightarrow> js_error + jstring" where
  "extract_word firstLine =
    (case rx_match wordPattern firstLine of
       Some m \<Rightarrow> group_trim m 1
     | None \<Rightarrow>
        (case rx_match simpleWordPattern firstLine of
           Some m \<Rightarrow> group_trim m 1
         | None \<Rightarrow> Inr []))"

definition parseEntry :: "nat \<Rightarrow> jstring list \<Rightarrow> js_error + parsed_entry option" where
  "parseEntry max_args lines =
    (case lines of
       [] \<Rightarrow> Inr None
     | firstLine # rest \<Rightarrow>
        (case extract_word firstLine of
           Inl e \<Rightarrow> Inl e
         | Inr w \<Rightarrow>
            (let ph = (case rx_match phoneticPattern firstLine of
                         Some m \<Rightarrow> group_text m 1 | None \<Rightarrow> []);
                 p = (case rx_match posPattern firstLine of
                        Some m \<Rightarrow> group_text m 1 | None \<Rightarrow> [])
             in case extractJapanesePart firstLine w of
                  Inl e \<Rightarrow> Inl e
                | Inr meaningInFirst \<Rightarrow>
                   (let entry0 = \<lparr> word = w, meaning = meaningInFirst, phonetic = ph, pos = p,
                                   examples = [], synonyms = [], antonyms = [] \<rparr>
                    in case parse_lines max_args (entry0, \<lparr> en = [], ja = [] \<rparr>) rest of
                         Inl e \<Rightarrow> Inl e
                       | Inr fin \<Rightarrow>
                           Inr (Some (if en (snd fin) \<noteq> []
                                      then (fst fin)\<lparr> examples := examples (fst fin) @ [snd fin] \<rparr>
                                      else fst fin))))))"

subsection \<open>\<open>extractWordsFromRawText\<close>\<close>

definition stoplist :: "jstring list" where
  "stoplist =
    [[116, 104, 101],
     [97, 110, 100],
     [102, 111, 114],
     [116, 104, 97, 116],
     [116, 104, 105, 115],
     [119, 105, 116, 104],
     [102, 114, 111, 109],
     [97, 114, 101],
     [119, 97, 115],
     [77, 73, 78, 73, 77, 65, 76],
     [80, 72, 82, 65, 83, 69, 83],
     [83, 116, 97, 103, 101],
     [70, 105, 110, 97, 108],
     [66, 97, 115, 105, 99],
     [86, 101, 114, 98, 115],
     [104, 105, 115],
     [104, 101, 114],
     [105, 116, 115],
     [111, 117, 114],
     [121, 111, 117],
     [104, 105, 109],
     [115, 104, 101]]"

text \<open>
  The loop of \<open>extractWordsFromRawText\<close>: the lines from the current one on, and the
  entries collected so far.
\<close>

fun raw_loop :: "jstring list \<Rightarrow> parsed_entry list \<Rightarrow> js_error + parsed_entry list" where
  "raw_loop [] entries = Inr entries"
| "raw_loop (line # rest) entries =
     (case rx_match rawWordPattern line of
        None \<Rightarrow> raw_loop rest entries
      | Some m \<Rightarrow>
         (case group_trim m 2 of
            Inl e \<Rightarrow> Inl e
          | Inr w \<Rightarrow>
             if w \<in> set stoplist then raw_loop rest entries
             else if length w < 3 then raw_loop rest entries
             else
               (let mn = (case filter isJapaneseMajority (take 3 rest) of
                            [] \<Rightarrow> [] | x # _ \<Rightarrow> x);
                    ph = (case rx_match phoneticPattern line of
                            Some pm \<Rightarrow> group_text pm 1 | None \<Rightarrow> [])
                in if w \<noteq> [] \<and> \<not> list_ex (\<lambda>e. toLowerCase (word e) = toLowerCase w) entries
                   then raw_loop rest
                          (entries @ [\<lparr> word = w, meaning = mn, phonetic = ph, pos = [],
                                       examples = [], synonyms = [], antonyms = [] \<rparr>])
                   else raw_loop rest entries)))"

text \<open>\<open>text.split('\n').map(l => l.trim()).filter(l => l.length > 0)\<close>\<close>

definition text_lines :: "jstring \<Rightarrow> jstring list" where
  "text_lines text = filter (\<lambda>l. length l > 0) (map trim (split_char 10 text))"

definition extractWordsFromRawText :: "jstring \<Rightarrow> js_error + parsed_entry list" where
  "extractWordsFromRawText text = raw_loop (text_lines text) []"

subsection \<open>\<open>parseSystemEitan\<close>\<close>

text \<open>The indices of the lines that satisfy a test, as collected by \<open>lines.forEach\<close>.\<close>

definition line_indices :: "(jstring \<Rightarrow> bool) \<Rightarrow> jstring list \<Rightarrow> nat list" where
  "line_indices P lines = filter (\<lambda>i. P (lines ! i)) [0..<length lines]"

text \<open>
  The line groups: \<open>lines.slice(entryIndices[i], entryIndices[i + 1])\<close>, the last one up
  to the end.
\<close>

fun entry_groups :: "nat list \<Rightarrow> jstring list \<Rightarrow> jstring list list" where
  "entry_groups [] lines = []"
| "entry_groups [s] lines = [drop s lines]"
| "entry_groups (s # e # rest) lines = take (e - s) (drop s lines) # entry_groups (e # rest) lines"

text \<open>The loop over the groups; a group without headword is dropped.\<close>

fun parse_groups ::
  "nat \<Rightarrow> jstring list list \<Rightarrow> parsed_entry list \<Rightarrow> js_error + parsed_entry list" where
  "parse_groups max_args [] entries = Inr entries"
| "parse_groups max_args (g # gs) entries =
     (case parseEntry max_args g of
        Inl e \<Rightarrow> Inl e
      | Inr None \<Rightarrow> parse_groups max_args gs entries
      | Inr (Some entry) \<Rightarrow>
          (if word entry \<noteq> [] then parse_groups max_args gs (entries @ [entry])
           else parse_groups max_args gs entries))"

definition numbered_indices :: "jstring list \<Rightarrow> nat list" where
  "numbered_indices lines = line_indices (rx_test entryStartPattern) lines"

definition marker_indices :: "jstring list \<Rightarrow> nat list" where
  "marker_indices lines =
    line_indices (\<lambda>l. rx_test bracketMarkerPattern l \<or> rx_test posMarkerPattern l) lines"

definition parseSystemEitan :: "nat \<Rightarrow> js_value \<Rightarrow> js_error + parsed_entry list" where
  "parseSystemEitan max_args v =
    (if js_falsy v \<or> \<not> is_string v then Inr []
     else (case v of
             JString text \<Rightarrow>
               (let lines = text_lines text;
                    entryIndices = (if numbered_indices lines = [] then marker_indices lines
                                    else numbered_indices lines)
                in if entryIndices = [] then extractWordsFromRawText text
                   else parse_groups max_args (entry_groups entryIndices lines) [])
           | _ \<Rightarrow> Inr []))"

text \<open>
  The line groups that \<open>parseSystemEitan\<close> hands to \<open>parseEntry\<close>: those of the
  numbered entries, else those of the marker lines (none when the fallback is taken).
\<close>

definition line_groups :: "jstring \<Rightarrow> jstring list list" where
  "line_groups text =
    (let lines = text_lines text;
         entryIndices = (if numbered_indices lines = [] then marker_indices lines
                         else numbered_indices lines)
     in entry_groups entryIndices lines)"

text \<open>
  A line stays within the argument bound when it is no synonym or antonym line, or
  yields at most \<open>max_args\<close> terms; a line group does when all its lines after the
  first do; a text does when all its line groups do.
\<close>

definition spread_ok :: "nat \<Rightarrow> jstring \<Rightarrow> bool" where
  "spread_ok max_args line =
    (if (case line of [] \<Rightarrow> False | c # _ \<Rightarrow> is_synonym_marker c \<or> is_antonym_marker c)
     then length (extractSynonyms line) \<le> max_args
     else True)"

definition group_ok :: "nat \<Rightarrow> jstring list \<Rightarrow> bool" where
  "group_ok max_args g = list_all (spread_ok max_args) (tl g)"

definition within_limit :: "nat \<Rightarrow> jstring \<Rightarrow> bool" where
  "within_limit max_args text = list_all (group_ok max_args) (line_groups text)"

text \<open>
  A synonym line with \<open>n + 1\<close> terms: the marker U+2252, \<open>n\<close> times "ab" and a
  space, and "ab". \<open>numbered_text n\<close> is the entry line "1 ab" followed by this line,
  \<open>marker_text n\<close> the marker line "abcd [x]" followed by it.
\<close>

definition long_line :: "nat \<Rightarrow> jstring" where
  "long_line n = 8786 # concat (replicate n [97, 98, 32]) @ [97, 98]"

definition numbered_text :: "nat \<Rightarrow> jstring" where
  "numbered_text n = [49, 32, 97, 98, 10] @ long_line n"

definition marker_text :: "nat \<Rightarrow> jstring" where
  "marker_text n = [97, 98, 99, 100, 32, 91, 120, 93, 10] @ long_line n"

text \<open>
  A line "contains a digit followed by white space and a Latin letter": some digit is
  followed by at least one white-space character and then a Latin letter.
\<close>

fun digit_space_latin :: "jstring \<Rightarrow> bool" where
  "digit_space_latin [] = False"
| "digit_space_latin (c # cs) =
     ((is_digit c \<and> (case cs of [] \<Rightarrow> False | d # _ \<Rightarrow> is_space d) \<and>
       (case dropWhile is_space cs of [] \<Rightarrow> False | l # _ \<Rightarrow> is_latin l))
      \<or> digit_space_latin cs)"


section \<open>Review session driver\<close>

text \<open>
  The study modes of the application shell. Only the session state that the three
  answer handlers read or write is modelled; the DOM updates, the speech output, the
  timers that advance to the next card, and the write of \<open>VocabDB.updateWord\<close> to
  the external store are left out. A handler that dereferences \<open>undefined\<close> raises a
  \<open>TypeError\<close>.
\<close>

datatype tile_kind = WordTile | MeaningTile

record tile =
  tile_id :: jstring
  tile_kind :: tile_kind
  tile_text :: jstring
  pairId :: jstring

text \<open>
  \<open>mtSelected\<close> holds the index and the tile of the first selection (the tile is
  \<open>undefined\<close> for an index outside \<open>mtTiles\<close>); \<open>mtMatchedEls\<close> are the indices of
  the tile elements that carry the class \<open>matched\<close>.
\<close>

record study_state =
  studyWords :: "vocab_word list"
  fcIndex :: nat
  fcCorrect :: int
  fcIncorrect :: int
  spIndex :: nat
  spAnswered :: bool
  spCorrect :: int
  spIncorrect :: int
  mtTiles :: "tile list"
  mtSelected :: "(nat \<times> tile option) option"
  mtMatched :: int
  mtAttempts :: int
  mtMatchedEls :: "nat list"

text \<open>
  \<open>VocabDB.updateWord(word)\<close>: stamps the shared word object and writes it to the
  store.
\<close>

definition updateWord :: "int \<Rightarrow> vocab_word \<Rightarrow> vocab_word" where
  "updateWord now w = w\<lparr> updatedAt := now \<rparr>"

text \<open>
  \<open>answerFlashcard(correct)\<close>; \<open>now1\<close> and \<open>now2\<close> are the clock readings of
  \<open>SRS.calculate\<close>, \<open>now3\<close> the one of \<open>updateWord\<close>.
\<close>

definition answerFlashcard ::
  "int \<Rightarrow> int \<Rightarrow> int \<Rightarrow> bool \<Rightarrow> study_state \<Rightarrow> js_error + study_state" where
  "answerFlashcard now1 now2 now3 correct st =
    (if fcIndex st < length (studyWords st) then
       (let w = studyWords st ! fcIndex st
        in case srs w of
             None \<Rightarrow> Inl TypeError
           | Some s \<Rightarrow>
              (if correct then
                 (let w' = w\<lparr> stats := (stats w)\<lparr> flashcardCorrect :=
                                                       flashcardCorrect (stats w) + 1 \<rparr>,
                              srs := Some (calculate now1 now2 4 (repetitions s) (easeFactor s)
                                             (interval s)) \<rparr>
                  in Inr (st\<lparr> fcCorrect := fcCorrect st + 1,
                              studyWords := (studyWords st)[fcIndex st := updateWord now3 w'] \<rparr>))
               else
                 (let w' = w\<lparr> stats := (stats w)\<lparr> flashcardIncorrect :=
                                                       flashcardIncorrect (stats w) + 1 \<rparr>,
                              srs := Some (calculate now1 now2 1 (repetitions s) (easeFactor s)
                                             (interval s)) \<rparr>
                  in Inr (st\<lparr> fcIncorrect := fcIncorrect st + 1,
                              studyWords := (studyWords st)[fcIndex st := updateWord now3 w'] \<rparr>))))
     else Inl TypeError)"

text \<open>
  \<open>checkSpelling()\<close>; \<open>input\<close> is the value of the text field and \<open>lower\<close> stands for
  the builtin \<open>String.prototype.toLowerCase\<close>.
\<close>

definition checkSpelling ::
  "(jstring \<Rightarrow> jstring) \<Rightarrow> int \<Rightarrow> int \<Rightarrow> int \<Rightarrow> jstring \<Rightarrow> study_state
     \<Rightarrow> js_error + study_state" where
  "checkSpelling lower now1 now2 now3 input st =
    (if spAnswered st then Inr st
     else
       (let answer = lower (trim input)
        in if answer = [] then Inr st
           else if spIndex st < length (studyWords st) then
             (let w = studyWords st ! spIndex st;
                  correct = (answer = lower (word_text w))
              in case srs w of
                   None \<Rightarrow> Inl TypeError
                 | Some s \<Rightarrow>
                    (if correct then
                       (let w' = w\<lparr> stats := (stats w)\<lparr> spellingCorrect :=
                                                             spellingCorrect (stats w) + 1 \<rparr>,
                                    srs := Some (calculate now1 now2 (if correct then 5 else 1)
                                                   (repetitions s) (easeFactor s) (interval s)) \<rparr>
                        in Inr (st\<lparr> spAnswered := True, spCorrect := spCorrect st + 1,
                                    studyWords :=
                                      (studyWords st)[spIndex st := updateWord now3 w'] \<rparr>))
                     else
                       (let w' = w\<lparr> stats := (stats w)\<lparr> spellingIncorrect :=
                                                             spellingIncorrect (stats w) + 1 \<rparr>,
                                    srs := Some (calculate now1 now2 1
                                                   (repetitions s) (easeFactor s) (interval s)) \<rparr>
                        in Inr (st\<lparr> spAnswered := True, spIncorrect := spIncorrect st + 1,
                                    studyWords :=
                                      (studyWords st)[spIndex st := updateWord now3 w'] \<rparr>))))
           else Inl TypeError))"

text \<open>\<open>words.find(w => w.id === id)\<close>, as the index of the word found.\<close>

fun find_word :: "jstring \<Rightarrow> vocab_word list \<Rightarrow> nat option" where
  "find_word i [] = None"
| "find_word i (w # ws) =
     (if word_id w = i then Some 0
      else (case find_word i ws of None \<Rightarrow> None | Some k \<Rightarrow> Some (Suc k)))"

text \<open>
  The two "SRS update" blocks of \<open>handleMatchingTileClick\<close>: the word of the pair is
  looked up, one of its matching counters is incremented and the word is saved.
\<close>

definition count_matching :: "bool \<Rightarrow> int \<Rightarrow> jstring \<Rightarrow> vocab_word list \<Rightarrow> vocab_word list" where
  "count_matching matched now pid ws =
    (case find_word pid ws of
       None \<Rightarrow> ws
     | Some k \<Rightarrow>
        (let w = ws ! k;
             w' = (if matched
                   then w\<lparr> stats := (stats w)\<lparr> matchingCorrect := matchingCorrect (stats w) + 1 \<rparr> \<rparr>
                   else w\<lparr> stats := (stats w)\<lparr> matchingIncorrect :=
                                                    matchingIncorrect (stats w) + 1 \<rparr> \<rparr>)
         in ws[k := updateWord now w']))"

text \<open>\<open>handleMatchingTileClick(tileEl)\<close> for the tile element with index \<open>index\<close>.\<close>

definition handleMatchingTileClick :: "int \<Rightarrow> nat \<Rightarrow> study_state \<Rightarrow> js_error + study_state" where
  "handleMatchingTileClick now index st =
    (let tl = (if index < length (mtTiles st) then Some (mtTiles st ! index) else None)
     in if index \<in> set (mtMatchedEls st) then Inr st
        else
          (case mtSelected st of
             None \<Rightarrow> Inr (st\<lparr> mtSelected := Some (index, tl) \<rparr>)
           | Some first \<Rightarrow>
              (if fst first = index then Inr (st\<lparr> mtSelected := None \<rparr>)
               else
                 (case (snd first, tl) of
                    (Some ft, Some t) \<Rightarrow>
                      (if pairId ft = pairId t \<and> tile_kind ft \<noteq> tile_kind t
                       then Inr (st\<lparr> mtAttempts := mtAttempts st + 1,
                                     mtMatchedEls := fst first # index # mtMatchedEls st,
                                     mtMatched := mtMatched st + 1,
                                     studyWords := count_matching True now (pairId t) (studyWords st),
                                     mtSelected := None \<rparr>)
                       else Inr (st\<lparr> mtAttempts := mtAttempts st + 1,
                                     studyWords := count_matching False now (pairId t) (studyWords st),
                                     mtSelected := None \<rparr>))
                  | _ \<Rightarrow> Inl TypeError))))"

text \<open>
  What a study mode other than matching can see of a word: everything but the two
  matching counters and the save stamp.
\<close>

definition outside_matching ::
  "vocab_word \<Rightarrow> jstring \<times> jstring \<times> srs_state option \<times> int \<times> int \<times> int \<times> int" where
  "outside_matching w =
    (word_id w, word_text w, srs w, flashcardCorrect (stats w), flashcardIncorrect (stats w),
     spellingCorrect (stats w), spellingIncorrect (stats w))"

subsection \<open>A sample session\<close>

text \<open>
  Two stored words, "cat" (id "1", never reviewed) and "dog" (id "2", reviewed twice),
  and the four tiles of a matching game over them; the word tile of "cat" is selected.
  "bird" and "fish" are two further words, due at the times 5000 and 3000.
\<close>

definition sample_stats :: word_stats where
  "sample_stats = \<lparr> flashcardCorrect = 0, flashcardIncorrect = 0, spellingCorrect = 0,
                     spellingIncorrect = 0, matchingCorrect = 0, matchingIncorrect = 0 \<rparr>"

definition sample_cat :: vocab_word where
  "sample_cat = \<lparr> word_id = [49], word_text = [99, 97, 116], srs = Some initialData,
                   stats = sample_stats, updatedAt = 0 \<rparr>"

definition sample_dog :: vocab_word where
  "sample_dog = \<lparr> word_id = [50], word_text = [100, 111, 103],
                   srs = Some \<lparr> repetitions = 2, easeFactor = 5 / 2, interval = 6,
                               nextReview = Some 9000, lastReview = Some 4000 \<rparr>,
                   stats = sample_stats, updatedAt = 0 \<rparr>"

definition sample_bird :: vocab_word where
  "sample_bird = \<lparr> word_id = [51], word_text = [98, 105, 114, 100],
                    srs = Some \<lparr> repetitions = 1, easeFactor = 5 / 2, interval = 1,
                                nextReview = Some 5000, lastReview = Some 4000 \<rparr>,
                    stats = sample_stats, updatedAt = 0 \<rparr>"

definition sample_fish :: vocab_word where
  "sample_fish = \<lparr> word_id = [52], word_text = [102, 105, 115, 104],
                    srs = Some \<lparr> repetitions = 0, easeFactor = 2, interval = 1,
                                nextReview = Some 3000, lastReview = Some 2000 \<rparr>,
                    stats = sample_stats, updatedAt = 0 \<rparr>"

definition sample_tiles :: "tile list" where
  "sample_tiles =
    [\<lparr> tile_id = [49], tile_kind = WordTile, tile_text = [99, 97, 116], pairId = [49] \<rparr>,
     \<lparr> tile_id = [49, 45, 109], tile_kind = MeaningTile, tile_text = [29483], pairId = [49] \<rparr>,
     \<lparr> tile_id = [50], tile_kind = WordTile, tile_text = [100, 111, 103], pairId = [50] \<rparr>,
     \<lparr> tile_id = [50, 45, 109], tile_kind = MeaningTile, tile_text = [29356], pairId = [50] \<rparr>]"

definition sample_session :: study_state where
  "sample_session =
    \<lparr> studyWords = [sample_cat, sample_dog], fcIndex = 0, fcCorrect = 0, fcIncorrect = 0,
      spIndex = 1, spAnswered = False, spCorrect = 0, spIncorrect = 0,
      mtTiles = sample_tiles, mtSelected = Some (0, Some (sample_tiles ! 0)),
      mtMatched = 0, mtAttempts = 0, mtMatchedEls = [] \<rparr>"

section \<open>Properties of the scheduler\<close>

subsection \<open>Rounding to double precision\<close>

lemmas double_defs =
  to_double_def ilog2_def round_even_def compute_bitlen js_add_def js_sub_def js_mul_def
  js_div_def ease_sum_def MIN_EASE_FACTOR_def Math_round_def

lemma ilog2_bounds:
  assumes "0 < x"
  shows "2 powi (ilog2 x) \<le> x" and "x < 2 powi (ilog2 x + 1)"
proof -
  have "2 powi (ilog2 x) \<le> x \<and> x < 2 powi (ilog2 x + 1)"
  proof (cases "1 \<le> x")
    case True
    define n where "n = \<lfloor>x\<rfloor>"
    have n: "0 < n" using True by (simp add: n_def)
    from bitlen_bounds [OF n] have b: "2 ^ nat (bitlen n - 1) \<le> n" "n < 2 ^ nat (bitlen n)"
      by simp_all
    have b1: "1 \<le> bitlen n" using n by (auto simp: bitlen_alt_def)
    have "real_of_int (2 ^ nat (bitlen n - 1)) \<le> real_of_int n" using b(1) by linarith
    also have "\<dots> \<le> x" by (simp add: n_def)
    finally have lo: "2 powi (bitlen n - 1) \<le> x"
      using b1 by (simp add: power_int_def)
    have "n + 1 \<le> 2 ^ nat (bitlen n)" using b(2) by simp
    then have "real_of_int (n + 1) \<le> real_of_int (2 ^ nat (bitlen n))" by linarith
    moreover have "x < real_of_int (n + 1)" by (simp add: n_def)
    ultimately have "x < real_of_int (2 ^ nat (bitlen n))" by linarith
    then have hi: "x < 2 powi (bitlen n)"
      using b1 by (simp add: power_int_def)
    show ?thesis using lo hi True by (simp add: ilog2_def n_def)
  next
    case False
    define y where "y = 1 / x"
    have y: "1 < y" using False assms by (simp add: y_def)
    define m where "m = \<lceil>y\<rceil> - 1"
    have m: "0 < m" using y by (simp add: m_def)
    from bitlen_bounds [OF m] have b: "2 ^ nat (bitlen m - 1) \<le> m" "m < 2 ^ nat (bitlen m)"
      by simp_all
    have b1: "1 \<le> bitlen m" using m by (auto simp: bitlen_alt_def)
    have my: "real_of_int m < y" "y \<le> real_of_int (m + 1)"
      unfolding m_def by linarith+
    have "m + 1 \<le> 2 ^ nat (bitlen m)" using b(2) by simp
    then have "real_of_int (m + 1) \<le> real_of_int (2 ^ nat (bitlen m))" by linarith
    with my(2) have yhi: "y \<le> 2 ^ nat (bitlen m)" by simp
    have "(2::real) ^ nat (bitlen m - 1) \<le> real_of_int m"
      using b(1) by (metis of_int_le_iff of_int_power of_int_numeral)
    with my(1) have ylo: "2 ^ nat (bitlen m - 1) < y" by linarith
    have xeq: "x = 1 / y" using assms by (simp add: y_def)
    have lo: "2 powi (- bitlen m) \<le> x"
    proof -
      have "1 / 2 ^ nat (bitlen m) \<le> 1 / y"
        using yhi y by (intro divide_left_mono) auto
      then show ?thesis using b1 by (simp add: power_int_def xeq inverse_eq_divide power_one_over)
    qed
    have hi: "x < 2 powi (- bitlen m + 1)"
    proof -
      have "1 / y < 1 / 2 ^ nat (bitlen m - 1)"
        using ylo y by (intro divide_strict_left_mono) auto
      moreover have "(2::real) powi (- bitlen m + 1) = 1 / 2 ^ nat (bitlen m - 1)"
      proof (cases "bitlen m = 1")
        case True
        then show ?thesis by simp
      next
        case False
        with b1 have "\<not> 0 \<le> - bitlen m + 1" by simp
        then show ?thesis
          by (simp add: power_int_def inverse_eq_divide nat_diff_distrib power_one_over)
      qed
      ultimately show ?thesis by (simp add: xeq)
    qed
    show ?thesis using lo hi False by (simp add: ilog2_def m_def y_def)
  qed
  then show "2 powi (ilog2 x) \<le> x" and "x < 2 powi (ilog2 x + 1)" by simp_all
qed

lemma ilog2_mono:
  assumes "0 < x" "x \<le> y"
  shows "ilog2 x \<le> ilog2 y"
proof (rule ccontr)
  assume "\<not> ilog2 x \<le> ilog2 y"
  then have "ilog2 y + 1 \<le> ilog2 x" by simp
  then have "(2::real) powi (ilog2 y + 1) \<le> 2 powi (ilog2 x)"
    by (intro power_int_increasing) auto
  also have "\<dots> \<le> x" using ilog2_bounds(1) [OF assms(1)] .
  also have "\<dots> \<le> y" by fact
  finally show False using ilog2_bounds(2) [of y] assms by simp
qed

lemma round_even_bounds:
  "real_of_int (round_even m) \<le> m + 1 / 2" "m - 1 / 2 \<le> real_of_int (round_even m)"
  unfolding round_even_def Let_def by (auto; linarith)+

lemma round_even_of_int [simp]: "round_even (of_int n) = n"
  by (simp add: round_even_def)

lemma round_even_ge_int:
  assumes "of_int n \<le> m"
  shows "n \<le> round_even m"
proof -
  have "n \<le> \<lfloor>m\<rfloor>" using assms by (simp add: le_floor_iff)
  then show ?thesis unfolding round_even_def Let_def by auto
qed

lemma round_even_le_int:
  assumes "m \<le> of_int n"
  shows "round_even m \<le> n"
proof (cases "m = of_int n")
  case True
  then show ?thesis by simp
next
  case False
  with assms have "m < of_int n" by simp
  then have "\<lfloor>m\<rfloor> < n" by (simp add: floor_less_iff)
  then show ?thesis unfolding round_even_def Let_def by auto
qed

lemma round_even_mono:
  assumes "a \<le> b"
  shows "round_even a \<le> round_even b"
proof (cases "\<lfloor>a\<rfloor> = \<lfloor>b\<rfloor>")
  case True
  have "a - of_int \<lfloor>a\<rfloor> \<le> b - of_int \<lfloor>b\<rfloor>" using assms True by simp
  then show ?thesis unfolding round_even_def Let_def using True by auto
next
  case False
  have "\<lfloor>a\<rfloor> \<le> \<lfloor>b\<rfloor>" using assms by (rule floor_mono)
  with False have "\<lfloor>a\<rfloor> + 1 \<le> \<lfloor>b\<rfloor>" by simp
  moreover have "round_even a \<le> \<lfloor>a\<rfloor> + 1" unfolding round_even_def Let_def by auto
  moreover have "\<lfloor>b\<rfloor> \<le> round_even b" unfolding round_even_def Let_def by auto
  ultimately show ?thesis by linarith
qed


lemma to_double_pos_unfold:
  assumes "0 < x"
  shows "to_double x = of_int (round_even (x / 2 powi (max (ilog2 x - 52) (- 1074)))) *
                         2 powi (max (ilog2 x - 52) (- 1074))"
  using assms by (simp add: to_double_def Let_def)

lemma to_double_nonneg:
  assumes "0 < x"
  shows "0 \<le> to_double x"
proof -
  have "0 \<le> x / 2 powi (max (ilog2 x - 52) (- 1074))" using assms by simp
  then have "0 \<le> round_even (x / 2 powi (max (ilog2 x - 52) (- 1074)))"
    using round_even_ge_int [of 0] by simp
  then show ?thesis unfolding to_double_pos_unfold [OF assms] by simp
qed

text \<open>A positive number is rounded to at least the power of two below it.\<close>

lemma to_double_ge_pow2:
  assumes "0 < y" "- 1074 < ilog2 y - 52"
  shows "2 powi (ilog2 y) \<le> to_double y"
proof -
  define k where "k = ilog2 y"
  have e: "max (k - 52) (- 1074) = k - 52" using assms(2) by (simp add: k_def)
  have "2 powi k \<le> y" unfolding k_def using ilog2_bounds(1) [OF assms(1)] .
  then have "2 powi k / 2 powi (k - 52) \<le> y / 2 powi (k - 52)"
    by (intro divide_right_mono) auto
  moreover have "(2::real) powi k / 2 powi (k - 52) = of_int (2 ^ 52)"
    by (simp add: power_int_diff)
  ultimately have "2 ^ 52 \<le> round_even (y / 2 powi (k - 52))"
    using round_even_ge_int [of "2 ^ 52" "y / 2 powi (k - 52)"] by simp
  then have r: "real_of_int (2 ^ 52) \<le> of_int (round_even (y / 2 powi (k - 52)))"
    by linarith
  have "(2::real) powi k = real_of_int (2 ^ 52) * 2 powi (k - 52)"
    by (simp add: power_int_diff)
  also have "\<dots> \<le> of_int (round_even (y / 2 powi (k - 52))) * 2 powi (k - 52)"
    using r by (intro mult_right_mono) auto
  also have "\<dots> = to_double y"
    unfolding to_double_pos_unfold [OF assms(1)] using e by (simp add: k_def)
  finally show ?thesis unfolding k_def .
qed

text \<open>A positive number is rounded to at most the power of two above it.\<close>

lemma to_double_le_pow2:
  assumes "0 < x"
  shows "to_double x \<le> 2 powi (ilog2 x + 1)"
proof -
  define k where "k = ilog2 x"
  define e where "e = max (k - 52) (- 1074)"
  have x: "x < 2 powi (k + 1)" unfolding k_def using ilog2_bounds(2) [OF assms] .
  have td: "to_double x = of_int (round_even (x / 2 powi e)) * 2 powi e"
    unfolding e_def k_def using to_double_pos_unfold [OF assms] .
  show ?thesis
  proof (cases "0 \<le> k + 1 - e")
    case True
    have "x / 2 powi e \<le> 2 powi (k + 1) / 2 powi e"
      using x by (intro divide_right_mono) auto
    also have "\<dots> = 2 powi (k + 1 - e)" by (simp add: power_int_diff)
    also have "\<dots> = of_int (2 ^ nat (k + 1 - e))"
      using True by (simp add: power_int_def)
    finally have "round_even (x / 2 powi e) \<le> 2 ^ nat (k + 1 - e)"
      by (rule round_even_le_int)
    then have "real_of_int (round_even (x / 2 powi e)) \<le> of_int (2 ^ nat (k + 1 - e))"
      by linarith
    then have "real_of_int (round_even (x / 2 powi e)) * 2 powi e \<le>
               of_int (2 ^ nat (k + 1 - e)) * 2 powi e"
      by (intro mult_right_mono) auto
    also have "real_of_int (2 ^ nat (k + 1 - e)) = 2 powi (k + 1 - e)"
      using True by (simp add: power_int_def)
    also have "2 powi (k + 1 - e) * (2::real) powi e = 2 powi (k + 1)"
      by (simp flip: power_int_add)
    finally show ?thesis unfolding td k_def .
  next
    case False
    then have "k + 1 - e \<le> - 1" by simp
    have "x / 2 powi e < 2 powi (k + 1) / 2 powi e"
      using x by (intro divide_strict_right_mono) auto
    also have "\<dots> = 2 powi (k + 1 - e)" by (simp add: power_int_diff)
    also have "\<dots> \<le> 2 powi (- 1)"
      using \<open>k + 1 - e \<le> - 1\<close> by (intro power_int_increasing) auto
    finally have "x / 2 powi e < 2 powi (- 1)" .
    moreover define z where "z = x / 2 powi e"
    ultimately have lt: "z < 1 / 2" by simp
    have pos: "0 < z" using assms by (simp add: z_def)
    have "\<lfloor>z\<rfloor> = 0" using lt pos by (intro floor_unique) auto
    then have "round_even z = 0"
      using lt by (simp add: round_even_def Let_def)
    then show ?thesis unfolding td z_def by simp
  qed
qed

lemma to_double_mono:
  assumes "0 < x" "x \<le> y"
  shows "to_double x \<le> to_double y"
proof -
  have y: "0 < y" using assms by simp
  define ex where "ex = max (ilog2 x - 52) (- 1074)"
  define ey where "ey = max (ilog2 y - 52) (- 1074)"
  have kk: "ilog2 x \<le> ilog2 y" using ilog2_mono [OF assms] .
  show ?thesis
  proof (cases "ex = ey")
    case True
    have "x / 2 powi ey \<le> y / 2 powi ey" using assms(2) by (intro divide_right_mono) auto
    then have "round_even (x / 2 powi ey) \<le> round_even (y / 2 powi ey)"
      by (rule round_even_mono)
    then have "real_of_int (round_even (x / 2 powi ey)) \<le> of_int (round_even (y / 2 powi ey))"
      by linarith
    then have "real_of_int (round_even (x / 2 powi ey)) * 2 powi ey \<le>
               of_int (round_even (y / 2 powi ey)) * 2 powi ey"
      by (intro mult_right_mono) auto
    then show ?thesis
      unfolding to_double_pos_unfold [OF assms(1)] to_double_pos_unfold [OF y]
      using True by (simp add: ex_def ey_def)
  next
    case False
    with kk have lt: "ilog2 x < ilog2 y" and big: "- 1074 < ilog2 y - 52"
      by (auto simp: ex_def ey_def max_def split: if_splits)
    have "to_double x \<le> 2 powi (ilog2 x + 1)" using to_double_le_pow2 [OF assms(1)] .
    also have "\<dots> \<le> 2 powi (ilog2 y)" using lt by (intro power_int_increasing) auto
    also have "\<dots> \<le> to_double y" using to_double_ge_pow2 [OF y big] .
    finally show ?thesis .
  qed
qed

lemma to_double_13_10: "13 / 10 \<le> to_double (13 / 10)" "0 < to_double (13 / 10)"
  by (simp_all add: double_defs Let_def)

lemma to_double_130: "to_double (to_double (13 / 10) * 100) = 130"
  by (simp add: double_defs Let_def)

lemma to_double_1: "to_double 1 = 1"
  by (simp add: double_defs Let_def)

subsection \<open>The fields of the returned state\<close>

lemma calculate_fields:
  "repetitions (calculate now1 now2 q reps ef iv) = (if 3 \<le> q then reps + 1 else 0)"
  "interval (calculate now1 now2 q reps ef iv) =
     (if 3 \<le> q
      then (if reps = 0 then 1
            else if reps = 1 then 6
            else Math_round (js_mul (of_int iv) ef))
      else 1)"
  "easeFactor (calculate now1 now2 q reps ef iv) =
     round2 (max MIN_EASE_FACTOR (ease_sum q ef))"
  "nextReview (calculate now1 now2 q reps ef iv) =
     Some (now1 + interval (calculate now1 now2 q reps ef iv) * 86400000)"
  "lastReview (calculate now1 now2 q reps ef iv) = Some now2"
  by (simp_all add: calculate_def Let_def round2_def max_def not_less)

subsection \<open>Level classification\<close>

text \<open>
  Against C1 as stated: a state with one repetition and a 21-day interval is not
  classified \<open>mastered\<close> but \<open>learning\<close>, because \<open>SRS.getLevel\<close> tests
  \<open>repetitions < 2\<close> before it tests the interval.
\<close>

theorem getLevel_interval21_counterexample:
  "21 \<le> interval \<lparr> repetitions = 1, easeFactor = 5 / 2, interval = 21,
                    nextReview = Some 2000, lastReview = Some 1000 \<rparr> \<and>
   getLevel (sample_cat\<lparr> srs := Some \<lparr> repetitions = 1, easeFactor = 5 / 2, interval = 21,
                                      nextReview = Some 2000, lastReview = Some 1000 \<rparr> \<rparr>)
     = Learning \<and>
   Learning \<noteq> Mastered"
  by (simp add: getLevel_def srs_or_initial_def js_not_def)

text \<open>
  C1 (as amended). For every scheduling state \<open>s\<close> of a word, \<open>SRS.getLevel\<close> returns
  \<open>new\<close> iff \<open>repetitions = 0\<close> and \<open>lastReview\<close> is falsy (\<open>null\<close>, or the number 0);
  otherwise \<open>learning\<close> iff \<open>repetitions < 2\<close>; otherwise \<open>mastered\<close> iff
  \<open>interval \<ge> 21\<close>; otherwise \<open>reviewing\<close>. So a state with \<open>interval \<ge> 21\<close> is
  \<open>mastered\<close> exactly when its repetitions count is at least 2.
\<close>

theorem getLevel_classification:
  "(getLevel (w\<lparr>srs := Some s\<rparr>) = New \<longleftrightarrow> repetitions s = 0 \<and> js_not (lastReview s)) \<and>
   (getLevel (w\<lparr>srs := Some s\<rparr>) = Learning \<longleftrightarrow>
      \<not> (repetitions s = 0 \<and> js_not (lastReview s)) \<and> repetitions s < 2) \<and>
   (getLevel (w\<lparr>srs := Some s\<rparr>) = Mastered \<longleftrightarrow> 2 \<le> repetitions s \<and> 21 \<le> interval s) \<and>
   (getLevel (w\<lparr>srs := Some s\<rparr>) = Reviewing \<longleftrightarrow> 2 \<le> repetitions s \<and> interval s < 21)"
  by (auto simp: getLevel_def srs_or_initial_def)

subsection \<open>Out-of-range quality\<close>

text \<open>
  Against C2 as stated: called with quality 7, \<open>SRS.calculate\<close> returns a computed
  state, a pass with the ease factor raised from 2.5 to 2.68 (the double nearest to it).
\<close>

theorem calculate_quality7_counterexample:
  "calculate_outcome 1000 1001 7 0 (5 / 2) 0 =
     Inr \<lparr> repetitions = 1, easeFactor = to_double (67 / 25), interval = 1,
           nextReview = Some 86401000, lastReview = Some 1001 \<rparr>"
proof -
  have e: "round2 (max MIN_EASE_FACTOR (ease_sum 7 (5 / 2))) = to_double (67 / 25)"
    by (simp add: round2_def double_defs Let_def)
  have "calculate 1000 1001 7 0 (5 / 2) 0 =
          \<lparr> repetitions = 1, easeFactor = to_double (67 / 25), interval = 1,
            nextReview = Some 86401000, lastReview = Some 1001 \<rparr>"
    by (rule srs_state.equality) (simp_all add: calculate_fields e)
  then show ?thesis by (simp add: calculate_outcome_def)
qed

text \<open>
  C2 (as amended). \<open>SRS.calculate\<close> validates nothing: for every quality, also outside
  0..5, and every state it returns a computed state and raises no error. A quality
  above 5 counts as a pass (repetitions incremented), a quality below 0 as a fail
  (repetitions 0, interval 1).
\<close>

theorem calculate_never_rejects:
  "calculate_outcome now1 now2 q reps ef iv = Inr (calculate now1 now2 q reps ef iv) \<and>
   (5 < q \<longrightarrow> repetitions (calculate now1 now2 q reps ef iv) = reps + 1) \<and>
   (q < 0 \<longrightarrow> repetitions (calculate now1 now2 q reps ef iv) = 0 \<and>
              interval (calculate now1 now2 q reps ef iv) = 1)"
  by (simp add: calculate_outcome_def calculate_fields)

theorem calculate_never_rejects_witness:
  "(5::int) < 7 \<and> repetitions (calculate 1000 1001 7 0 (5 / 2) 0) = 1 \<and>
   (-1::int) < 0 \<and> repetitions (calculate 1000 1001 (-1) 3 (5 / 2) 15) = 0 \<and>
   interval (calculate 1000 1001 (-1) 3 (5 / 2) 15) = 1"
  using calculate_never_rejects [of 1000 1001 7 0 "5 / 2" 0]
    calculate_never_rejects [of 1000 1001 "-1" 3 "5 / 2" 15]
  by simp

subsection \<open>Repetitions and interval\<close>

text \<open>
  C4. A pass (quality at least 3) increments the repetitions and sets the interval to
  1 after no prior repetition, to 6 after one, and to \<open>round(interval * easeFactor)\<close>,
  on the ease factor passed in, after two or more; a fail resets the repetitions to 0
  and the interval to 1. Here \<open>*\<close> is the product of doubles and \<open>round\<close> is
  \<open>Math.round\<close>, the integer nearest to its argument, the upper one at a tie. From
  the fresh state three reviews of quality 4 give the intervals 1, 6 and
  \<open>round(6 * e)\<close>, \<open>e\<close> being the ease factor after the second one (that is, 15).
\<close>

theorem calculate_repetitions_interval:
  "(3 \<le> q \<longrightarrow>
      repetitions (calculate now1 now2 q reps ef iv) = reps + 1 \<and>
      (reps = 0 \<longrightarrow> interval (calculate now1 now2 q reps ef iv) = 1) \<and>
      (reps = 1 \<longrightarrow> interval (calculate now1 now2 q reps ef iv) = 6) \<and>
      (2 \<le> reps \<longrightarrow>
         interval (calculate now1 now2 q reps ef iv) = Math_round (js_mul (of_int iv) ef))) \<and>
   (q < 3 \<longrightarrow>
      repetitions (calculate now1 now2 q reps ef iv) = 0 \<and>
      interval (calculate now1 now2 q reps ef iv) = 1) \<and>
   (real_of_int (Math_round x) \<le> x + 1 / 2 \<and> x + 1 / 2 < real_of_int (Math_round x) + 1) \<and>
   (let s1 = calculate a1 b1 4 (repetitions initialData) (easeFactor initialData)
               (interval initialData);
        s2 = calculate a2 b2 4 (repetitions s1) (easeFactor s1) (interval s1);
        s3 = calculate a3 b3 4 (repetitions s2) (easeFactor s2) (interval s2)
    in interval s1 = 1 \<and> interval s2 = 6 \<and>
       interval s3 = Math_round (js_mul 6 (easeFactor s2)) \<and> interval s3 = 15)"
proof (intro conjI)
  show "3 \<le> q \<longrightarrow>
      repetitions (calculate now1 now2 q reps ef iv) = reps + 1 \<and>
      (reps = 0 \<longrightarrow> interval (calculate now1 now2 q reps ef iv) = 1) \<and>
      (reps = 1 \<longrightarrow> interval (calculate now1 now2 q reps ef iv) = 6) \<and>
      (2 \<le> reps \<longrightarrow>
         interval (calculate now1 now2 q reps ef iv) = Math_round (js_mul (of_int iv) ef))"
    by (simp add: calculate_fields)
  show "q < 3 \<longrightarrow>
      repetitions (calculate now1 now2 q reps ef iv) = 0 \<and>
      interval (calculate now1 now2 q reps ef iv) = 1"
    by (simp add: calculate_fields)
  show "real_of_int (Math_round x) \<le> x + 1 / 2"
    unfolding Math_round_def by (rule of_int_floor_le)
  show "x + 1 / 2 < real_of_int (Math_round x) + 1"
    unfolding Math_round_def by linarith
  have e: "round2 (max MIN_EASE_FACTOR (ease_sum 4 (5 / 2))) = 5 / 2"
    by (simp add: round2_def double_defs Let_def)
  have e1: "easeFactor (calculate a1 b1 4 0 (5 / 2) 0) = 5 / 2"
    by (simp add: calculate_fields e)
  have e2: "easeFactor (calculate a2 b2 4 1 (5 / 2) 1) = 5 / 2"
    by (simp add: calculate_fields e)
  have r1: "repetitions (calculate a1 b1 4 0 (5 / 2) 0) = 1"
           "interval (calculate a1 b1 4 0 (5 / 2) 0) = 1"
    by (simp_all add: calculate_fields)
  have r2: "repetitions (calculate a2 b2 4 1 (5 / 2) 1) = 2"
           "interval (calculate a2 b2 4 1 (5 / 2) 1) = 6"
    by (simp_all add: calculate_fields)
  have i3: "interval (calculate a3 b3 4 2 (5 / 2) 6) = Math_round (js_mul 6 (5 / 2))"
    by (simp add: calculate_fields)
  have v3: "Math_round (js_mul 6 (5 / 2)) = 15"
    by (simp add: double_defs Let_def)
  show "let s1 = calculate a1 b1 4 (repetitions initialData) (easeFactor initialData)
               (interval initialData);
        s2 = calculate a2 b2 4 (repetitions s1) (easeFactor s1) (interval s1);
        s3 = calculate a3 b3 4 (repetitions s2) (easeFactor s2) (interval s2)
    in interval s1 = 1 \<and> interval s2 = 6 \<and>
       interval s3 = Math_round (js_mul 6 (easeFactor s2)) \<and> interval s3 = 15"
    unfolding Let_def initialData_def DEFAULT_EASE_FACTOR_def srs_state.select_convs
      e1 r1 e2 r2 i3 v3
    by simp
qed

text \<open>
  The witness takes three states that the scheduler reaches from the fresh state. At
  ease factor 2.6 and interval 6 the product is 15.6 and the interval 16, not 15. At
  2.3 and 55 the product of the doubles is just below 126.5 and the interval is 126;
  at 2.26 and 725 it is just below 1638.5 and the interval is 1638.
\<close>

theorem calculate_repetitions_interval_witness:
  "(3::int) \<le> 4 \<and> (2::int) \<le> 2 \<and> (1::int) < 3 \<and>
   interval (calculate 1000 1001 4 0 (5 / 2) 0) = 1 \<and>
   interval (calculate 1000 1001 4 1 (5 / 2) 1) = 6 \<and>
   interval (calculate 1000 1001 4 2 (5 / 2) 6) = 15 \<and>
   interval (calculate 1000 1001 4 2 (to_double (26 / 10)) 6) = 16 \<and>
   interval (calculate 1000 1001 4 5 (to_double (23 / 10)) 55) = 126 \<and>
   interval (calculate 1000 1001 4 8 (to_double (226 / 100)) 725) = 1638 \<and>
   repetitions (calculate 1000 1001 4 2 (5 / 2) 6) = 3 \<and>
   repetitions (calculate 1000 1001 1 2 (5 / 2) 6) = 0 \<and>
   interval (calculate 1000 1001 1 2 (5 / 2) 6) = 1 \<and>
   Math_round (13 / 2) = 7"
proof -
  have v: "Math_round (js_mul 6 (5 / 2)) = 15"
    "Math_round (js_mul 6 (to_double (26 / 10))) = 16"
    "Math_round (js_mul 55 (to_double (23 / 10))) = 126"
    "Math_round (js_mul 725 (to_double (226 / 100))) = 1638"
    by (simp_all add: double_defs Let_def)
  have r: "Math_round (13 / 2) = 7" by (simp add: Math_round_def)
  have a: "interval (calculate 1000 1001 4 0 (5 / 2) 0) = 1"
    using calculate_repetitions_interval [of 4 1000 1001 0 "5 / 2" 0] by simp
  have b: "interval (calculate 1000 1001 4 1 (5 / 2) 1) = 6"
    using calculate_repetitions_interval [of 4 1000 1001 1 "5 / 2" 1] by simp
  have c: "interval (calculate 1000 1001 4 2 (5 / 2) 6) = 15"
          "repetitions (calculate 1000 1001 4 2 (5 / 2) 6) = 3"
    using calculate_repetitions_interval [of 4 1000 1001 2 "5 / 2" 6] v(1) by simp_all
  have d: "interval (calculate 1000 1001 4 2 (to_double (26 / 10)) 6) = 16"
    using calculate_repetitions_interval [of 4 1000 1001 2 "to_double (26 / 10)" 6] v(2)
    by (simp del: divide_divide_eq_left)
  have e: "interval (calculate 1000 1001 4 5 (to_double (23 / 10)) 55) = 126"
    using calculate_repetitions_interval [of 4 1000 1001 5 "to_double (23 / 10)" 55] v(3)
    by simp
  have f: "interval (calculate 1000 1001 4 8 (to_double (226 / 100)) 725) = 1638"
    using calculate_repetitions_interval [of 4 1000 1001 8 "to_double (226 / 100)" 725] v(4)
    by simp
  have g: "repetitions (calculate 1000 1001 1 2 (5 / 2) 6) = 0"
          "interval (calculate 1000 1001 1 2 (5 / 2) 6) = 1"
    using calculate_repetitions_interval [of 1 1000 1001 2 "5 / 2" 6] by simp_all
  from a b c d e f g r show ?thesis by simp
qed

subsection \<open>Invariants of the returned state\<close>

lemma Math_round_ge:
  assumes "of_int n \<le> x"
  shows "n \<le> Math_round x"
proof -
  from assms have "of_int n \<le> x + 1 / 2" by simp
  then show ?thesis unfolding Math_round_def by (simp only: le_floor_iff)
qed

lemma round2_ease_floor:
  assumes "MIN_EASE_FACTOR \<le> m"
  shows "MIN_EASE_FACTOR \<le> round2 m"
proof -
  have pos: "0 < MIN_EASE_FACTOR * 100"
    using to_double_13_10(2) by (simp add: MIN_EASE_FACTOR_def)
  have "MIN_EASE_FACTOR * 100 \<le> m * 100" using assms by simp
  from to_double_mono [OF pos this] have "130 \<le> js_mul m 100"
    by (simp add: js_mul_def MIN_EASE_FACTOR_def to_double_130)
  then have "real_of_int 130 \<le> js_mul m 100" by simp
  then have "130 \<le> Math_round (js_mul m 100)" by (rule Math_round_ge)
  then have "(13::real) / 10 \<le> of_int (Math_round (js_mul m 100)) / 100" by simp
  from to_double_mono [OF _ this] show ?thesis
    by (simp add: round2_def js_div_def MIN_EASE_FACTOR_def)
qed

lemma calculate_ease:
  "easeFactor (calculate now1 now2 q reps ef iv) =
     round2 (max MIN_EASE_FACTOR (ease_sum q ef))"
  by (rule calculate_fields)

lemma calculate_ease_floor:
  "MIN_EASE_FACTOR \<le> easeFactor (calculate now1 now2 q reps ef iv)"
  unfolding calculate_ease by (rule round2_ease_floor) simp

lemma Math_round_product_pos:
  assumes "1 \<le> (i::int)" "13 / 10 \<le> (e::real)"
  shows "1 \<le> Math_round (js_mul (of_int i) e)"
proof -
  have "1 * (13 / 10) \<le> of_int i * e" using assms by (intro mult_mono) auto
  then have "1 \<le> of_int i * e" by simp
  from to_double_mono [OF _ this] have "real_of_int 1 \<le> js_mul (of_int i) e"
    by (simp add: js_mul_def to_double_1)
  then show ?thesis by (rule Math_round_ge)
qed

lemma calculate_step:
  assumes "13 / 10 \<le> ef" "0 \<le> reps" "2 \<le> reps \<longrightarrow> 1 \<le> iv"
  shows "0 \<le> repetitions (calculate now1 now2 q reps ef iv)"
    and "1 \<le> interval (calculate now1 now2 q reps ef iv)"
    and "nextReview (calculate now1 now2 q reps ef iv) \<noteq> None"
    and "lastReview (calculate now1 now2 q reps ef iv) \<noteq> None"
    and "well_formed (calculate now1 now2 q reps ef iv)"
proof -
  show r: "0 \<le> repetitions (calculate now1 now2 q reps ef iv)"
    using assms by (simp add: calculate_fields)
  show i: "1 \<le> interval (calculate now1 now2 q reps ef iv)"
    using assms Math_round_product_pos [of iv ef] by (simp add: calculate_fields)
  show "nextReview (calculate now1 now2 q reps ef iv) \<noteq> None"
    by (simp add: calculate_fields)
  show "lastReview (calculate now1 now2 q reps ef iv) \<noteq> None"
    by (simp add: calculate_fields)
  have "13 / 10 \<le> easeFactor (calculate now1 now2 q reps ef iv)"
    using calculate_ease_floor [of now1 now2 q reps ef iv] to_double_13_10(1)
    unfolding MIN_EASE_FACTOR_def by linarith
  then show "well_formed (calculate now1 now2 q reps ef iv)"
    using r i unfolding well_formed_def by simp
qed

lemma review_seq_snoc:
  "review_seq w (rs @ [(n1, n2, q)]) = reviewWord n1 n2 (review_seq w rs) q"
  by (induction w rs rule: review_seq.induct) simp_all

lemma reviewWord_ease_floor:
  "MIN_EASE_FACTOR \<le> easeFactor (srs_or_initial (reviewWord n1 n2 w q))"
proof -
  have "srs_or_initial (reviewWord n1 n2 w q) =
          calculate n1 n2 q (repetitions (srs_or_initial w)) (easeFactor (srs_or_initial w))
            (interval (srs_or_initial w))"
    by (simp add: reviewWord_def srs_or_initial_def Let_def)
  then show ?thesis by (simp only: calculate_ease_floor)
qed

lemma reviewWord_not_new: "n2 \<noteq> 0 \<Longrightarrow> getLevel (reviewWord n1 n2 w q) \<noteq> New"
  by (simp add: reviewWord_def getLevel_def srs_or_initial_def Let_def calculate_fields
      js_not_def)

lemma review_seq_invariants:
  assumes "rs \<noteq> []" "list_all valid_review rs"
  shows "MIN_EASE_FACTOR \<le> easeFactor (srs_or_initial (review_seq w rs)) \<and>
         getLevel (review_seq w rs) \<noteq> New"
proof -
  from assms(1) obtain rs' r where rs: "rs = rs' @ [r]"
    by (cases rs rule: rev_cases) auto
  obtain n1 n2 q where r: "r = (n1, n2, q)" by (cases r) auto
  from assms(2) rs r have "n2 \<noteq> 0" by (simp add: valid_review_def)
  then show ?thesis unfolding rs r review_seq_snoc
    using reviewWord_ease_floor reviewWord_not_new by blast
qed

text \<open>
  Against C5 as stated. With two repetitions recorded and a zero interval, a pass
  returns the interval \<open>round(0 * 2.5) = 0\<close>, although the ease factor and the
  repetitions are well-formed. And a failed review made while the clock reads 0 stores
  the falsy \<open>lastReview = 0\<close>, so that the reviewed word is classified \<open>new\<close> again.
\<close>

theorem calculate_interval_zero_counterexample:
  "((13::real) / 10 \<le> 5 / 2 \<and> (0::int) \<le> 2 \<and> (0::int) \<le> 4 \<and> (4::int) \<le> 5 \<and>
    \<not> 1 \<le> interval (calculate 1000 1001 4 2 (5 / 2) 0)) \<and>
   getLevel (reviewWord 0 0 sample_dog 1) = New"
proof -
  have "Math_round (js_mul 0 (5 / 2)) = 0" by (simp add: double_defs Let_def)
  then show ?thesis
    by (simp add: calculate_fields reviewWord_def getLevel_def srs_or_initial_def js_not_def
        Let_def)
qed

text \<open>
  C5 (as amended). For every quality and every state with \<open>easeFactor \<ge> 1.3\<close>,
  \<open>repetitions \<ge> 0\<close> and, when \<open>repetitions \<ge> 2\<close>, \<open>interval \<ge> 1\<close>, the state returned
  by \<open>SRS.calculate\<close> has the ease factor
  \<open>max(1.3, easeFactor + (0.1 - (5 - q) * (0.08 + (5 - q) * 0.02)))\<close> rounded to two
  decimals, all in double arithmetic (the rounding is \<open>Math.round(100 * m) / 100\<close>);
  it has \<open>repetitions \<ge> 0\<close>, \<open>interval \<ge> 1\<close>, \<open>nextReview\<close> and \<open>lastReview\<close> set, an
  ease factor of at least 1.3, and is again such a state. After any non-empty sequence
  of reviews with qualities in 0..5, taken while the clock does not read 0, the ease
  factor is at least 1.3 and the word is not classified \<open>new\<close>.
\<close>

theorem calculate_invariants:
  assumes "0 \<le> q" "q \<le> 5" "well_formed \<lparr> repetitions = reps, easeFactor = ef, interval = iv,
                                           nextReview = nr, lastReview = lr \<rparr>"
    and "rs \<noteq> []" "list_all valid_review rs"
  shows "easeFactor (calculate now1 now2 q reps ef iv) =
           round2 (max (to_double (13 / 10))
             (js_add ef
                (js_sub (to_double (1 / 10))
                   (js_mul (of_int (5 - q))
                      (js_add (to_double (8 / 100))
                         (js_mul (of_int (5 - q)) (to_double (2 / 100)))))))) \<and>
         0 \<le> repetitions (calculate now1 now2 q reps ef iv) \<and>
         1 \<le> interval (calculate now1 now2 q reps ef iv) \<and>
         nextReview (calculate now1 now2 q reps ef iv) \<noteq> None \<and>
         lastReview (calculate now1 now2 q reps ef iv) \<noteq> None \<and>
         to_double (13 / 10) \<le> easeFactor (calculate now1 now2 q reps ef iv) \<and>
         13 / 10 \<le> easeFactor (calculate now1 now2 q reps ef iv) \<and>
         well_formed (calculate now1 now2 q reps ef iv) \<and>
         13 / 10 \<le> easeFactor (srs_or_initial (review_seq w rs)) \<and>
         getLevel (review_seq w rs) \<noteq> New"
proof -
  from assms(3) have wf: "13 / 10 \<le> ef" "0 \<le> reps" "2 \<le> reps \<longrightarrow> 1 \<le> iv"
    by (simp_all add: well_formed_def split: if_splits)
  have e: "easeFactor (calculate now1 now2 q reps ef iv) =
           round2 (max (to_double (13 / 10))
             (js_add ef
                (js_sub (to_double (1 / 10))
                   (js_mul (of_int (5 - q))
                      (js_add (to_double (8 / 100))
                         (js_mul (of_int (5 - q)) (to_double (2 / 100))))))))"
    unfolding calculate_ease by (simp only: MIN_EASE_FACTOR_def ease_sum_def)
  have f: "to_double (13 / 10) \<le> easeFactor (calculate now1 now2 q reps ef iv)"
    using calculate_ease_floor [of now1 now2 q reps ef iv] by (simp only: MIN_EASE_FACTOR_def)
  then have f': "13 / 10 \<le> easeFactor (calculate now1 now2 q reps ef iv)"
    using to_double_13_10(1) by linarith
  have "to_double (13 / 10) \<le> easeFactor (srs_or_initial (review_seq w rs))"
    using review_seq_invariants [OF assms(4,5), of w] by (simp only: MIN_EASE_FACTOR_def)
  then have s: "13 / 10 \<le> easeFactor (srs_or_initial (review_seq w rs))"
    using to_double_13_10(1) by linarith
  show ?thesis
    using e f f' s calculate_step [OF wf, of now1 now2 q]
      review_seq_invariants [OF assms(4,5), of w]
    by (intro conjI) blast+
qed

text \<open>
  The witness takes a failed review of the state with two repetitions, ease factor
  2.5 and interval 6, which gives the ease factor 1.96, and two passes of quality 4:
  at ease factor 2.135 the product with 100 is the double just below 213.5 and the
  result is 2.13; at 1.305 the product is the double 130.5 and the result is 1.31.
\<close>

theorem calculate_invariants_witness:
  "well_formed \<lparr> repetitions = 2, easeFactor = 5 / 2, interval = 6,
                 nextReview = None, lastReview = None \<rparr> \<and>
   well_formed \<lparr> repetitions = 2, easeFactor = to_double (2135 / 1000), interval = 6,
                 nextReview = None, lastReview = None \<rparr> \<and>
   well_formed \<lparr> repetitions = 2, easeFactor = to_double (1305 / 1000), interval = 6,
                 nextReview = None, lastReview = None \<rparr> \<and>
   list_all valid_review [(1000, 1001, 1), (2000, 2001, 0)] \<and>
   easeFactor (calculate 1000 1001 1 2 (5 / 2) 6) = to_double (49 / 25) \<and>
   easeFactor (calculate 1000 1001 4 2 (to_double (2135 / 1000)) 6) = to_double (213 / 100) \<and>
   easeFactor (calculate 1000 1001 4 2 (to_double (1305 / 1000)) 6) = to_double (131 / 100) \<and>
   1 \<le> interval (calculate 1000 1001 1 2 (5 / 2) 6) \<and>
   getLevel (review_seq sample_cat [(1000, 1001, 1), (2000, 2001, 0)]) \<noteq> New"
proof -
  have wf: "well_formed \<lparr> repetitions = 2, easeFactor = 5 / 2, interval = 6,
                          nextReview = None, lastReview = None \<rparr>"
    by (simp add: well_formed_def)
  have g: "13 / 10 \<le> to_double (2135 / 1000)" "13 / 10 \<le> to_double (1305 / 1000)"
    by (simp_all add: double_defs Let_def)
  have wf2: "well_formed \<lparr> repetitions = 2, easeFactor = to_double (2135 / 1000), interval = 6,
                           nextReview = None, lastReview = None \<rparr>"
    using g(1) by (simp add: well_formed_def)
  have wf3: "well_formed \<lparr> repetitions = 2, easeFactor = to_double (1305 / 1000), interval = 6,
                           nextReview = None, lastReview = None \<rparr>"
    using g(2) by (simp add: well_formed_def)
  have vr: "list_all valid_review [(1000, 1001, 1), (2000, 2001, 0)]"
    by (simp add: valid_review_def)
  have ne: "[(1000, 1001, 1), (2000, 2001, 0)] \<noteq> ([] :: (int \<times> int \<times> int) list)"
    by simp
  have q: "(0::int) \<le> 1" "(1::int) \<le> 5" by simp_all
  have q4: "(0::int) \<le> 4" "(4::int) \<le> 5" by simp_all
  have v: "round2 (max (to_double (13 / 10))
             (js_add (5 / 2)
                (js_sub (to_double (1 / 10))
                   (js_mul (of_int (5 - 1))
                      (js_add (to_double (8 / 100))
                         (js_mul (of_int (5 - 1)) (to_double (2 / 100)))))))) =
           to_double (49 / 25)"
    by (simp add: round2_def double_defs Let_def)
  have v2: "round2 (max (to_double (13 / 10))
             (js_add (to_double (2135 / 1000))
                (js_sub (to_double (1 / 10))
                   (js_mul (of_int (5 - 4))
                      (js_add (to_double (8 / 100))
                         (js_mul (of_int (5 - 4)) (to_double (2 / 100)))))))) =
           to_double (213 / 100)"
    by (simp add: round2_def double_defs Let_def)
  have v3: "round2 (max (to_double (13 / 10))
             (js_add (to_double (1305 / 1000))
                (js_sub (to_double (1 / 10))
                   (js_mul (of_int (5 - 4))
                      (js_add (to_double (8 / 100))
                         (js_mul (of_int (5 - 4)) (to_double (2 / 100)))))))) =
           to_double (131 / 100)"
    by (simp add: round2_def double_defs Let_def)
  have r1: "easeFactor (calculate 1000 1001 1 2 (5 / 2) 6) = to_double (49 / 25) \<and>
            1 \<le> interval (calculate 1000 1001 1 2 (5 / 2) 6) \<and>
            getLevel (review_seq sample_cat [(1000, 1001, 1), (2000, 2001, 0)]) \<noteq> New"
    using calculate_invariants [OF q wf ne vr, where ?now1.0 = 1000 and ?now2.0 = 1001
        and w = sample_cat]
    by (simp only: v) simp
  have r2: "easeFactor (calculate 1000 1001 4 2 (to_double (2135 / 1000)) 6) =
            to_double (213 / 100)"
    using calculate_invariants [OF q4 wf2 ne vr, where ?now1.0 = 1000 and ?now2.0 = 1001
        and w = sample_cat]
    by (simp only: v2)
  have r3: "easeFactor (calculate 1000 1001 4 2 (to_double (1305 / 1000)) 6) =
            to_double (131 / 100)"
    using calculate_invariants [OF q4 wf3 ne vr, where ?now1.0 = 1000 and ?now2.0 = 1001
        and w = sample_cat]
    by (simp only: v3)
  from wf wf2 wf3 vr r1 r2 r3 show ?thesis by blast
qed

subsection \<open>Due words\<close>

lemma sorted_zero_first:
  "sorted (map f xs) \<Longrightarrow> \<forall>x\<in>set xs. (0::int) \<le> f x \<Longrightarrow>
   xs = filter (\<lambda>x. f x = 0) xs @ filter (\<lambda>x. f x \<noteq> 0) xs"
proof (induction xs)
  case Nil
  then show ?case by simp
next
  case (Cons x xs)
  show ?case
  proof (cases "f x = 0")
    case True
    with Cons show ?thesis by simp
  next
    case False
    with Cons.prems have "\<forall>y\<in>set xs. f y \<noteq> 0" by fastforce
    then have "filter (\<lambda>x. f x = 0) xs = []" "filter (\<lambda>x. f x \<noteq> 0) xs = xs"
      by (simp_all add: filter_empty_conv)
    with False show ?thesis by simp
  qed
qed

lemma real_timestamps_key:
  assumes "real_timestamps ws" "w \<in> set ws"
  shows "0 \<le> next_or_zero w"
    and "next_unset w \<longleftrightarrow> next_or_zero w = 0"
    and "is_due now w = spec_due now w"
  using assms
  by (auto simp: real_timestamps_def list_all_iff next_or_zero_def next_unset_def is_due_def
      spec_due_def js_not_def split: option.splits)

text \<open>
  C6. \<open>SRS.getDueWords\<close> returns the entries that pass its filter, each as often as
  it occurs in the input, sorted ascending by \<open>nextReview\<close> with unset read as 0. On
  entries whose stored \<open>nextReview\<close> values are real timestamps (positive
  milliseconds) these are exactly the entries whose \<open>nextReview\<close> is unset or at most
  \<open>now\<close>, and the never-reviewed entries come first, followed by the others in
  ascending order of their timestamps.
\<close>

theorem getDueWords_correct:
  "sorted (map next_or_zero (getDueWords now ws)) \<and>
   mset (getDueWords now ws) = mset (filter (is_due now) ws) \<and>
   (real_timestamps ws \<longrightarrow>
      mset (getDueWords now ws) = mset (filter (spec_due now) ws) \<and>
      getDueWords now ws =
        filter next_unset (getDueWords now ws) @
        filter (\<lambda>w. \<not> next_unset w) (getDueWords now ws) \<and>
      sorted (map next_or_zero (filter (\<lambda>w. \<not> next_unset w) (getDueWords now ws))))"
proof (intro conjI impI)
  show srt: "sorted (map next_or_zero (getDueWords now ws))"
    by (simp add: getDueWords_def)
  show "mset (getDueWords now ws) = mset (filter (is_due now) ws)"
    by (simp add: getDueWords_def)
  show "sorted (map next_or_zero (filter (\<lambda>w. \<not> next_unset w) (getDueWords now ws)))"
    using srt by (rule sorted_filter)
  assume rt: "real_timestamps ws"
  have eq: "filter (is_due now) ws = filter (spec_due now) ws"
    using real_timestamps_key(3) [OF rt] by (simp cong: filter_cong)
  show "mset (getDueWords now ws) = mset (filter (spec_due now) ws)"
    by (simp add: getDueWords_def eq)
  have sub: "set (getDueWords now ws) \<subseteq> set ws"
    by (auto simp: getDueWords_def)
  have nn: "\<forall>x\<in>set (getDueWords now ws). 0 \<le> next_or_zero x"
    using real_timestamps_key(1) [OF rt] sub by blast
  have f1: "filter next_unset (getDueWords now ws) =
            filter (\<lambda>x. next_or_zero x = 0) (getDueWords now ws)"
    using real_timestamps_key(2) [OF rt] sub by (intro filter_cong) auto
  have f2: "filter (\<lambda>w. \<not> next_unset w) (getDueWords now ws) =
            filter (\<lambda>x. next_or_zero x \<noteq> 0) (getDueWords now ws)"
    using real_timestamps_key(2) [OF rt] sub by (intro filter_cong) auto
  show "getDueWords now ws =
          filter next_unset (getDueWords now ws) @
          filter (\<lambda>w. \<not> next_unset w) (getDueWords now ws)"
    unfolding f1 f2 using sorted_zero_first [OF srt nn] .
qed

text \<open>
  At the time 6000 the words "bird", "cat", "fish" and "dog" give "cat" (never
  reviewed), then "fish" and "bird"; "dog" is not due.
\<close>

theorem getDueWords_correct_witness:
  "real_timestamps [sample_bird, sample_cat, sample_fish, sample_dog] \<and>
   getDueWords 6000 [sample_bird, sample_cat, sample_fish, sample_dog] =
     [sample_cat, sample_fish, sample_bird] \<and>
   mset [sample_cat, sample_fish, sample_bird] =
     mset (filter (spec_due 6000) [sample_bird, sample_cat, sample_fish, sample_dog]) \<and>
   filter next_unset [sample_cat, sample_fish, sample_bird] = [sample_cat]"
proof -
  let ?ws = "[sample_bird, sample_cat, sample_fish, sample_dog]"
  have rt: "real_timestamps ?ws"
    by (simp add: real_timestamps_def sample_bird_def sample_cat_def sample_fish_def
        sample_dog_def initialData_def)
  have run: "getDueWords 6000 ?ws = [sample_cat, sample_fish, sample_bird]"
    by (simp add: getDueWords_def is_due_def next_or_zero_def js_not_def sample_bird_def
        sample_cat_def sample_fish_def sample_dog_def initialData_def)
  have nu: "filter next_unset [sample_cat, sample_fish, sample_bird] = [sample_cat]"
    by (simp add: next_unset_def sample_bird_def sample_cat_def sample_fish_def
        initialData_def)
  from getDueWords_correct [of 6000 ?ws] rt
  have "mset (getDueWords 6000 ?ws) = mset (filter (spec_due 6000) ?ws)" by blast
  with rt run nu show ?thesis by simp
qed

subsection \<open>Dependence on the clock\<close>



section \<open>Properties of the extraction\<close>

lemmas char_class_defs =
  is_digit_def is_space_def is_latin_def is_word_char_def is_open_bracket_def
  is_close_bracket_def pos_tags6_def pos_tags9_def is_japanese_def is_dot_def
  is_synonym_marker_def is_antonym_marker_def

lemmas rx_defs =
  rx_test_def rx_match_def rx_seq_def rx_bol_def rx_many_def rx_class_def rx_group_def
  rx_alts_def rx_eol_def rx_opt_def rx_chr_def capture_def group_trim_def group_text_def

lemmas pattern_defs =
  entryStartPattern_def bracketMarkerPattern_def posMarkerPattern_def rawWordPattern_def
  phoneticPattern_def wordPattern_def simpleWordPattern_def posPattern_def
  meaningAfterPosPattern_def meaningAfterBracketPattern_def

lemmas parser_defs =
  parseSystemEitan_def js_falsy_def is_string_def text_lines_def trim_def
  numbered_indices_def marker_indices_def line_indices_def parseEntry_def extract_word_def
  extractJapanesePart_def parse_line_def push_spread_def extractSynonyms_def
  isJapaneseMajority_def isEnglishMajority_def

subsection \<open>Matches and their capture groups\<close>

lemma rx_exec_from_Some:
  "rx_exec_from r i s = Some (j, st) \<Longrightarrow> \<exists>st0. st \<in> set (r st0)"
proof (induction s arbitrary: i)
  case Nil
  then obtain xs where "r \<lparr> m_idx = i, m_rest = [], m_caps = (\<lambda>_. None) \<rparr> = st # xs"
    by (auto split: list.splits)
  then have "st \<in> set (r \<lparr> m_idx = i, m_rest = [], m_caps = (\<lambda>_. None) \<rparr>)" by simp
  then show ?case by blast
next
  case (Cons c cs)
  show ?case
  proof (cases "r \<lparr> m_idx = i, m_rest = c # cs, m_caps = (\<lambda>_. None) \<rparr>")
    case Nil
    with Cons show ?thesis by simp
  next
    case (Cons st' xs)
    with Cons.prems have "st' = st" by simp
    with Cons have "st \<in> set (r \<lparr> m_idx = i, m_rest = c # cs, m_caps = (\<lambda>_. None) \<rparr>)"
      by simp
    then show ?thesis by blast
  qed
qed

lemma rx_seq_iff:
  "st \<in> set (rx_seq r1 r2 st0) \<longleftrightarrow> (\<exists>st1 \<in> set (r1 st0). st \<in> set (r2 st1))"
  by (auto simp: rx_seq_def)

lemma rx_many_caps: "st \<in> set (rx_many g lo hi P st0) \<Longrightarrow> m_caps st = m_caps st0"
  by (auto simp: rx_many_def Let_def split: if_splits)

lemma rx_class_caps: "st \<in> set (rx_class P st0) \<Longrightarrow> m_caps st = m_caps st0"
  by (auto simp: rx_class_def split: list.splits if_splits)

lemma rx_eol_caps: "st \<in> set (rx_eol st0) \<Longrightarrow> m_caps st = m_caps st0"
  by (auto simp: rx_eol_def split: if_splits)

lemma rx_group_caps: "st \<in> set (rx_group i r st0) \<Longrightarrow> m_caps st i \<noteq> None"
  by (auto simp: rx_group_def)

lemma wordPattern_caps: "st \<in> set (wordPattern st0) \<Longrightarrow> m_caps st 1 \<noteq> None"
  by (auto simp: wordPattern_def rx_seq_iff rx_alts_def rx_opt_def
      dest!: rx_many_caps rx_class_caps rx_eol_caps rx_group_caps)

lemma simpleWordPattern_caps: "st \<in> set (simpleWordPattern st0) \<Longrightarrow> m_caps st 1 \<noteq> None"
  by (auto simp: simpleWordPattern_def rx_seq_iff rx_alts_def rx_opt_def
      dest!: rx_many_caps rx_class_caps rx_eol_caps rx_group_caps)

lemma meaningAfterPosPattern_caps:
  "st \<in> set (meaningAfterPosPattern st0) \<Longrightarrow> m_caps st 1 \<noteq> None"
  by (auto simp: meaningAfterPosPattern_def rx_seq_iff rx_alts_def rx_opt_def
      dest!: rx_many_caps rx_class_caps rx_eol_caps rx_group_caps)

lemma meaningAfterBracketPattern_caps:
  "st \<in> set (meaningAfterBracketPattern st0) \<Longrightarrow> m_caps st 1 \<noteq> None"
  by (auto simp: meaningAfterBracketPattern_def rx_seq_iff rx_alts_def rx_opt_def
      dest!: rx_many_caps rx_class_caps rx_eol_caps rx_group_caps)

lemma rawWordPattern_caps: "st \<in> set (rawWordPattern st0) \<Longrightarrow> m_caps st 2 \<noteq> None"
  by (auto simp: rawWordPattern_def rx_seq_iff rx_alts_def rx_opt_def
      dest!: rx_many_caps rx_class_caps rx_eol_caps rx_group_caps)

lemma group_trim_total:
  assumes "\<And>st st0. st \<in> set (r st0) \<Longrightarrow> m_caps st k \<noteq> None" "rx_match r s = Some m"
  shows "\<exists>w. group_trim m k = Inr w"
proof -
  obtain j st where m: "m = (j, st)" by (cases m)
  with assms(2) obtain st0 where "st \<in> set (r st0)"
    unfolding rx_match_def using rx_exec_from_Some by blast
  with assms(1) have "m_caps st k \<noteq> None" by blast
  then show ?thesis by (auto simp: group_trim_def capture_def m)
qed

subsection \<open>Exceptions\<close>

lemma extract_word_total: "\<exists>w. extract_word l = Inr w"
  using group_trim_total [of wordPattern 1 l] group_trim_total [of simpleWordPattern 1 l]
    wordPattern_caps simpleWordPattern_caps
  by (auto simp: extract_word_def split: option.splits)

lemma extractJapanesePart_total: "\<exists>w. extractJapanesePart l x = Inr w"
  using group_trim_total [of meaningAfterPosPattern 1 l]
    group_trim_total [of meaningAfterBracketPattern 1 l]
    meaningAfterPosPattern_caps meaningAfterBracketPattern_caps
  by (auto simp: extractJapanesePart_def split: option.splits)

lemma parse_line_ok:
  assumes "spread_ok m l"
  shows "\<exists>acc'. parse_line m acc l = Inr acc' \<and> word (fst acc') = word (fst acc)"
  using assms
  by (cases acc; cases l)
    (auto simp: parse_line_def push_spread_def spread_ok_def split: if_splits)

lemma parse_line_error:
  assumes "\<not> spread_ok m l"
  shows "parse_line m acc l = Inl RangeError"
  using assms
  by (cases acc; cases l)
    (auto simp: parse_line_def push_spread_def spread_ok_def split: if_splits)

lemma parse_lines_ok:
  "list_all (spread_ok m) ls \<Longrightarrow>
   \<exists>acc'. parse_lines m acc ls = Inr acc' \<and> word (fst acc') = word (fst acc)"
proof (induction ls arbitrary: acc)
  case Nil
  show ?case by simp
next
  case (Cons l ls)
  then have l: "spread_ok m l" and ls: "list_all (spread_ok m) ls" by simp_all
  from parse_line_ok [OF l, of acc] obtain a where
    a: "parse_line m acc l = Inr a" "word (fst a) = word (fst acc)" by blast
  from Cons.IH [OF ls, of a] a show ?case by auto
qed

lemma parse_lines_error:
  "\<not> list_all (spread_ok m) ls \<Longrightarrow> parse_lines m acc ls = Inl RangeError"
proof (induction ls arbitrary: acc)
  case Nil
  then show ?case by simp
next
  case (Cons l ls)
  show ?case
  proof (cases "spread_ok m l")
    case True
    with Cons.prems have n: "\<not> list_all (spread_ok m) ls" by simp
    from parse_line_ok [OF True, of acc] obtain a where "parse_line m acc l = Inr a" by blast
    with Cons.IH [OF n] show ?thesis by simp
  next
    case False
    then show ?thesis by (simp add: parse_line_error)
  qed
qed

lemma parseEntry_ok:
  assumes "group_ok m g"
  shows "\<exists>e. parseEntry m g = Inr e"
proof (cases g)
  case Nil
  then show ?thesis by (simp add: parseEntry_def)
next
  case (Cons l rest)
  obtain w where w: "extract_word l = Inr w" using extract_word_total by blast
  obtain mn where mn: "extractJapanesePart l w = Inr mn"
    using extractJapanesePart_total by blast
  from assms Cons have "list_all (spread_ok m) rest" by (simp add: group_ok_def)
  from parse_lines_ok [OF this] obtain fin where
    "parse_lines m
       (\<lparr> word = w, meaning = mn,
          phonetic = (case rx_match phoneticPattern l of Some m \<Rightarrow> group_text m 1 | None \<Rightarrow> []),
          pos = (case rx_match posPattern l of Some m \<Rightarrow> group_text m 1 | None \<Rightarrow> []),
          examples = [], synonyms = [], antonyms = [] \<rparr>, \<lparr> en = [], ja = [] \<rparr>) rest = Inr fin"
    by blast
  then show ?thesis by (simp add: parseEntry_def Cons w mn Let_def)
qed

lemma parseEntry_error:
  assumes "\<not> group_ok m g"
  shows "parseEntry m g = Inl RangeError"
proof (cases g)
  case Nil
  with assms show ?thesis by (simp add: group_ok_def)
next
  case (Cons l rest)
  obtain w where w: "extract_word l = Inr w" using extract_word_total by blast
  obtain mn where mn: "extractJapanesePart l w = Inr mn"
    using extractJapanesePart_total by blast
  from assms Cons have "\<not> list_all (spread_ok m) rest" by (simp add: group_ok_def)
  then show ?thesis by (simp add: parseEntry_def Cons w mn Let_def parse_lines_error)
qed

lemma parse_groups_ok:
  "list_all (group_ok m) gs \<Longrightarrow> \<exists>es. parse_groups m gs acc = Inr es"
proof (induction gs arbitrary: acc)
  case Nil
  then show ?case by simp
next
  case (Cons g gs)
  then have "group_ok m g" by simp
  then obtain e where "parseEntry m g = Inr e" using parseEntry_ok by blast
  with Cons show ?case by (cases e) auto
qed

lemma parse_groups_error:
  "\<not> list_all (group_ok m) gs \<Longrightarrow> parse_groups m gs acc = Inl RangeError"
proof (induction gs arbitrary: acc)
  case Nil
  then show ?case by simp
next
  case (Cons g gs)
  show ?case
  proof (cases "group_ok m g")
    case True
    with Cons.prems have n: "\<not> list_all (group_ok m) gs" by simp
    from True obtain e where "parseEntry m g = Inr e" using parseEntry_ok by blast
    with Cons.IH [OF n] show ?thesis by (cases e) auto
  next
    case False
    then show ?thesis by (simp add: parseEntry_error)
  qed
qed

lemma raw_loop_total: "\<exists>es. raw_loop ls acc = Inr es"
proof (induction ls arbitrary: acc)
  case Nil
  then show ?case by simp
next
  case (Cons l ls)
  show ?case
  proof (cases "rx_match rawWordPattern l")
    case None
    with Cons show ?thesis by simp
  next
    case (Some m)
    then obtain w where "group_trim m 2 = Inr w"
      using group_trim_total [of rawWordPattern 2 l m] rawWordPattern_caps by blast
    with Some Cons show ?thesis by (simp add: Let_def)
  qed
qed

lemma parseSystemEitan_not_string:
  "js_falsy v \<or> \<not> is_string v \<Longrightarrow> parseSystemEitan m v = Inr []"
  by (cases v) (auto simp: parseSystemEitan_def is_string_def)

lemma parseSystemEitan_groups:
  "parseSystemEitan m (JString text) =
     (if text = [] then Inr []
      else if line_groups text = [] then extractWordsFromRawText text
      else parse_groups m (line_groups text) [])"
proof -
  have e: "entry_groups is ls = [] \<longleftrightarrow> is = []" for "is" ls
    by (cases "(is, ls)" rule: entry_groups.cases) simp_all
  show ?thesis
    by (simp add: parseSystemEitan_def line_groups_def js_falsy_def is_string_def Let_def e)
qed

lemma parseSystemEitan_ok:
  assumes "within_limit m text"
  shows "\<exists>es. parseSystemEitan m (JString text) = Inr es"
  using assms parse_groups_ok [of m "line_groups text" "[]"] raw_loop_total
  by (simp add: parseSystemEitan_groups within_limit_def extractWordsFromRawText_def)

lemma parseSystemEitan_error:
  assumes "\<not> within_limit m text"
  shows "parseSystemEitan m (JString text) = Inl RangeError"
proof -
  from assms have g: "\<not> list_all (group_ok m) (line_groups text)"
    by (simp add: within_limit_def)
  then have ne: "line_groups text \<noteq> []" by auto
  have "text_lines [] = []" by (simp add: text_lines_def trim_def)
  then have "line_groups [] = []"
    by (simp add: line_groups_def numbered_indices_def marker_indices_def line_indices_def)
  with ne have "text \<noteq> []" by auto
  with ne g show ?thesis by (simp add: parseSystemEitan_groups parse_groups_error)
qed

subsection \<open>A synonym line beyond the argument bound\<close>

lemma split_char_none: "d \<notin> set s \<Longrightarrow> split_char d s = [s]"
  by (induction s) auto

lemma trim_id:
  assumes "s \<noteq> []" "\<not> is_space (hd s)" "\<not> is_space (last s)"
  shows "trim s = s"
proof -
  have a: "dropWhile is_space s = s"
    using assms(2) by (simp add: dropWhile_eq_self_iff)
  have b: "dropWhile is_space (rev s) = rev s"
    using assms(1,3) by (simp add: dropWhile_eq_self_iff hd_rev)
  show ?thesis by (simp add: trim_def a b)
qed

lemma terms_hd: "hd (concat (replicate n [97, 98, 32]) @ [97, 98]) = (97::nat)"
  by (cases n) simp_all

lemma split_runs_terms:
  assumes "P 32" "\<not> P 97" "\<not> P 98"
  shows "split_runs P [] (concat (replicate n [97, 98, 32]) @ [97, 98]) =
         replicate (Suc n) [97, 98]"
proof (induction n)
  case 0
  show ?case using assms by simp
next
  case (Suc n)
  have "dropWhile P (concat (replicate n [97, 98, 32]) @ [97, 98]) =
        concat (replicate n [97, 98, 32]) @ [97, 98]"
    using assms(2) by (simp add: dropWhile_eq_self_iff terms_hd del: hd_append2)
  with Suc show ?case using assms by simp
qed

lemma long_line_parts:
  "long_line n \<noteq> []" "hd (long_line n) = 8786" "last (long_line n) = 98"
  "10 \<notin> set (long_line n)"
  by (auto simp: long_line_def)

lemma trim_long_line: "trim (long_line n) = long_line n"
  by (rule trim_id) (simp_all add: long_line_parts is_space_def)

lemma extractSynonyms_long_line: "extractSynonyms (long_line n) = replicate (Suc n) [97, 98]"
proof -
  let ?Q = "\<lambda>c. is_synonym_marker c \<or> is_antonym_marker c \<or> is_space c"
  let ?P = "\<lambda>c. c = 44 \<or> c = 12289 \<or> is_space c"
  have "\<not> ?Q 97" by (simp add: char_class_defs)
  then have "dropWhile ?Q (concat (replicate n [97, 98, 32]) @ [97, 98]) =
             concat (replicate n [97, 98, 32]) @ [97, 98]"
    by (simp add: dropWhile_eq_self_iff terms_hd del: hd_append2)
  moreover have "?Q 8786" by (simp add: char_class_defs)
  ultimately have c: "dropWhile ?Q (long_line n) = concat (replicate n [97, 98, 32]) @ [97, 98]"
    by (simp add: long_line_def)
  have s: "split_runs ?P [] (concat (replicate n [97, 98, 32]) @ [97, 98]) =
           replicate (Suc n) [97, 98]"
    by (rule split_runs_terms) (simp_all add: is_space_def)
  have t: "trim [97, 98] = [97, 98]" by (simp add: trim_def is_space_def)
  have l: "is_latin 97" by (simp add: is_latin_def)
  show ?thesis
    unfolding extractSynonyms_def Let_def c s
    by (simp add: t l del: replicate.simps)
qed

lemma spread_ok_long_line: "spread_ok m (long_line n) \<longleftrightarrow> n < m"
proof -
  have "is_synonym_marker 8786" by (simp add: is_synonym_marker_def)
  then show ?thesis
    unfolding spread_ok_def extractSynonyms_long_line
    by (auto simp: long_line_def)
qed

text \<open>A pattern anchored with \<open>^\<close> matches at the start of the string or not at all.\<close>

lemma rx_exec_from_bol: "rx_exec_from (rx_seq rx_bol r) (Suc i) s = None"
  by (induction s arbitrary: i) (simp_all add: rx_seq_def rx_bol_def)

lemma rx_test_bol:
  "rx_test (rx_seq rx_bol r) s \<longleftrightarrow> r \<lparr> m_idx = 0, m_rest = s, m_caps = (\<lambda>_. None) \<rparr> \<noteq> []"
proof -
  have b: "rx_seq rx_bol r \<lparr> m_idx = 0, m_rest = t, m_caps = (\<lambda>_. None) \<rparr> =
           r \<lparr> m_idx = 0, m_rest = t, m_caps = (\<lambda>_. None) \<rparr>" for t
    by (simp add: rx_seq_def rx_bol_def)
  show ?thesis
    by (cases s) (auto simp: rx_test_def rx_match_def b rx_exec_from_bol split: list.splits)
qed

lemma long_line_no_start:
  "\<not> rx_test entryStartPattern (long_line n)"
  "\<not> rx_test bracketMarkerPattern (long_line n)"
  "\<not> rx_test posMarkerPattern (long_line n)"
  by (simp_all add: entryStartPattern_def bracketMarkerPattern_def posMarkerPattern_def
      rx_test_bol long_line_def rx_seq_def rx_many_def is_digit_def is_latin_def Let_def)

lemma text_lines_numbered_text:
  "text_lines (numbered_text n) = [[49, 32, 97, 98], long_line n]"
proof -
  have s: "split_char 10 (numbered_text n) = [[49, 32, 97, 98], long_line n]"
    by (simp add: numbered_text_def split_char_none long_line_parts)
  have t: "trim [49, 32, 97, 98] = [49, 32, 97, 98]" by (simp add: trim_def is_space_def)
  show ?thesis by (simp add: text_lines_def s t trim_long_line long_line_parts)
qed

lemma text_lines_marker_text:
  "text_lines (marker_text n) = [[97, 98, 99, 100, 32, 91, 120, 93], long_line n]"
proof -
  have s: "split_char 10 (marker_text n) = [[97, 98, 99, 100, 32, 91, 120, 93], long_line n]"
    by (simp add: marker_text_def split_char_none long_line_parts)
  have t: "trim [97, 98, 99, 100, 32, 91, 120, 93] = [97, 98, 99, 100, 32, 91, 120, 93]"
    by (simp add: trim_def is_space_def)
  show ?thesis by (simp add: text_lines_def s t trim_long_line long_line_parts)
qed

lemma line_groups_numbered_text:
  "line_groups (numbered_text n) = [[[49, 32, 97, 98], long_line n]]"
proof -
  have a: "rx_test entryStartPattern [49, 32, 97, 98]"
    by (simp add: rx_defs pattern_defs char_class_defs Let_def)
  have "numbered_indices [[49, 32, 97, 98], long_line n] = [0]"
    by (simp add: numbered_indices_def line_indices_def a long_line_no_start upt_rec [of 0])
  then show ?thesis by (simp add: line_groups_def text_lines_numbered_text)
qed

lemma marker_text_lines:
  "\<not> rx_test entryStartPattern [97, 98, 99, 100, 32, 91, 120, 93]"
  "rx_test bracketMarkerPattern [97, 98, 99, 100, 32, 91, 120, 93]"
  "\<not> digit_space_latin [97, 98, 99, 100, 32, 91, 120, 93]"
  by (simp_all add: rx_defs pattern_defs char_class_defs Let_def)

lemma marker_text_indices:
  "numbered_indices [[97, 98, 99, 100, 32, 91, 120, 93], long_line n] = []"
  "marker_indices [[97, 98, 99, 100, 32, 91, 120, 93], long_line n] = [0]"
  by (simp_all add: numbered_indices_def marker_indices_def line_indices_def
      marker_text_lines long_line_no_start upt_rec [of 0])

lemma line_groups_marker_text:
  "line_groups (marker_text n) = [[[97, 98, 99, 100, 32, 91, 120, 93], long_line n]]"
  by (simp add: line_groups_def text_lines_marker_text marker_text_indices)

lemma within_limit_long:
  "within_limit m (numbered_text n) \<longleftrightarrow> n < m"
  "within_limit m (marker_text n) \<longleftrightarrow> n < m"
  by (simp_all add: within_limit_def group_ok_def line_groups_numbered_text
      line_groups_marker_text spread_ok_long_line)

text \<open>
  C3. \<open>parseSystemEitan\<close> returns the empty list for a falsy argument (the empty
  string, \<open>null\<close>, \<open>undefined\<close>) and for one that is not a string. For a string it
  returns a list exactly when the text stays within the argument bound of the engine:
  no capture group on which the code calls \<open>trim\<close> is ever \<open>undefined\<close>, but a
  synonym or antonym line with more terms than one call accepts as arguments makes
  \<open>push(...)\<close> raise a \<open>RangeError\<close>, which \<open>parseSystemEitan\<close> does not catch.
  Whatever the bound \<open>max_args\<close> is, the text \<open>numbered_text max_args\<close>, an entry
  line followed by a synonym line of \<open>max_args + 1\<close> terms, is beyond it.
  Termination is that of the embedding, whose functions are all total.
\<close>

theorem parseSystemEitan_range_error:
  "(js_falsy v \<or> \<not> is_string v \<longrightarrow> parseSystemEitan max_args v = Inr []) \<and>
   (within_limit max_args text \<longrightarrow> (\<exists>es. parseSystemEitan max_args (JString text) = Inr es)) \<and>
   (\<not> within_limit max_args text \<longrightarrow>
      parseSystemEitan max_args (JString text) = Inl RangeError) \<and>
   \<not> within_limit max_args (numbered_text max_args) \<and>
   parseSystemEitan max_args (JString (numbered_text max_args)) = Inl RangeError"
  using parseSystemEitan_not_string [of v max_args] parseSystemEitan_ok [of max_args "text"]
    parseSystemEitan_error [of max_args "text"]
    parseSystemEitan_error [of max_args "numbered_text max_args"]
  by (simp add: within_limit_long)

text \<open>
  The witness takes the bound 125000: a text of white space is within it, the text
  \<open>numbered_text 125000\<close> is not. With the bound 2 the text "1 ab", new line,
  U+2252 "ab ab ab" of three terms raises the error.
\<close>

theorem parseSystemEitan_range_error_witness:
  "js_falsy JNull \<and> parseSystemEitan 125000 JNull = Inr [] \<and>
   js_falsy (JString []) \<and> parseSystemEitan 125000 (JString []) = Inr [] \<and>
   \<not> is_string (JNumber 7) \<and> parseSystemEitan 125000 (JNumber 7) = Inr [] \<and>
   within_limit 125000 [32, 9, 32] \<and>
   (\<exists>es. parseSystemEitan 125000 (JString [32, 9, 32]) = Inr es) \<and>
   \<not> within_limit 125000 (numbered_text 125000) \<and>
   parseSystemEitan 125000 (JString (numbered_text 125000)) = Inl RangeError \<and>
   \<not> within_limit 2 [49, 32, 97, 98, 10, 8786, 97, 98, 32, 97, 98, 32, 97, 98] \<and>
   parseSystemEitan 2 (JString [49, 32, 97, 98, 10, 8786, 97, 98, 32, 97, 98, 32, 97, 98]) =
     Inl RangeError"
proof -
  have a: "within_limit 125000 [32, 9, 32]"
    by (simp add: within_limit_def line_groups_def text_lines_def trim_def is_space_def
        numbered_indices_def marker_indices_def line_indices_def)
  have b: "\<not> within_limit 2 [49, 32, 97, 98, 10, 8786, 97, 98, 32, 97, 98, 32, 97, 98]"
    by (simp add: within_limit_def group_ok_def spread_ok_def line_groups_def parser_defs
        char_class_defs rx_defs pattern_defs Let_def upt_rec [of 0])
  show ?thesis
    using a b parseSystemEitan_range_error [of JNull 125000 "[32, 9, 32]"]
      parseSystemEitan_range_error [of "JString []" 125000 "numbered_text 125000"]
      parseSystemEitan_range_error [of "JNumber 7" 125000 "[32, 9, 32]"]
      parseSystemEitan_range_error [of JNull 2
        "[49, 32, 97, 98, 10, 8786, 97, 98, 32, 97, 98, 32, 97, 98]"]
    by (simp add: js_falsy_def is_string_def)
qed

subsection \<open>The end-to-end scenario\<close>

text \<open>
  C7. The input is the scenario text of the spec as UTF-16 code units, its four lines
  separated by the code unit 10: the entry line "56 abundant [..] T M" with the
  phonetic transcription in brackets, the tag \<open>T\<close> = U+5F62 and the meaning \<open>M\<close> =
  U+8C4A U+5BCC U+306A; the English sentence; its Japanese translation; and the
  synonym line that starts with U+2252. On an engine that accepts a call with two
  arguments, \<open>parseSystemEitan\<close> returns exactly one candidate: the word "abundant",
  the transcription without its brackets, the tag, the meaning, the one example pair
  of sentence and translation, and the synonyms "plentiful" and "copious" in this
  order; no antonyms.
\<close>

theorem parseSystemEitan_abundant:
  assumes "2 \<le> max_args"
  shows "parseSystemEitan max_args (JString
     [53, 54, 32, 97, 98, 117, 110, 100, 97, 110, 116, 32, 91, 601, 712, 98, 652, 110, 100,
      601, 110, 116, 93, 32, 24418, 32, 35914, 23500, 12394, 10,
      84, 104, 101, 32, 97, 98, 117, 110, 100, 97, 110, 116, 32, 104, 97, 114, 118, 101, 115,
      116, 32, 102, 101, 100, 32, 116, 104, 101, 32, 118, 105, 108, 108, 97, 103, 101, 46, 10,
      26449, 12399, 35914, 23500, 12394, 21454, 31339, 12391, 28288, 12383, 12373, 12428,
      12383, 12290, 10,
      8786, 32, 112, 108, 101, 110, 116, 105, 102, 117, 108, 44, 32, 99, 111, 112, 105, 111,
      117, 115]) =
   Inr [\<lparr> word = [97, 98, 117, 110, 100, 97, 110, 116],
          meaning = [35914, 23500, 12394],
          phonetic = [601, 712, 98, 652, 110, 100, 601, 110, 116],
          pos = [24418],
          examples =
            [\<lparr> en = [84, 104, 101, 32, 97, 98, 117, 110, 100, 97, 110, 116, 32, 104, 97, 114,
                      118, 101, 115, 116, 32, 102, 101, 100, 32, 116, 104, 101, 32, 118, 105,
                      108, 108, 97, 103, 101, 46],
                ja = [26449, 12399, 35914, 23500, 12394, 21454, 31339, 12391, 28288, 12383,
                      12373, 12428, 12383, 12290] \<rparr>],
          synonyms = [[112, 108, 101, 110, 116, 105, 102, 117, 108],
                      [99, 111, 112, 105, 111, 117, 115]],
          antonyms = [] \<rparr>]"
  using assms
  by (simp add: parser_defs char_class_defs rx_defs pattern_defs Let_def upt_rec [of 0])


text \<open>The witness takes the bound 65536.\<close>

theorem parseSystemEitan_abundant_witness:
  "(2::nat) \<le> 65536 \<and>
   parseSystemEitan 65536 (JString
     [53, 54, 32, 97, 98, 117, 110, 100, 97, 110, 116, 32, 91, 601, 712, 98, 652, 110, 100,
      601, 110, 116, 93, 32, 24418, 32, 35914, 23500, 12394, 10,
      84, 104, 101, 32, 97, 98, 117, 110, 100, 97, 110, 116, 32, 104, 97, 114, 118, 101, 115,
      116, 32, 102, 101, 100, 32, 116, 104, 101, 32, 118, 105, 108, 108, 97, 103, 101, 46, 10,
      26449, 12399, 35914, 23500, 12394, 21454, 31339, 12391, 28288, 12383, 12373, 12428,
      12383, 12290, 10,
      8786, 32, 112, 108, 101, 110, 116, 105, 102, 117, 108, 44, 32, 99, 111, 112, 105, 111,
      117, 115]) =
   Inr [\<lparr> word = [97, 98, 117, 110, 100, 97, 110, 116],
          meaning = [35914, 23500, 12394],
          phonetic = [601, 712, 98, 652, 110, 100, 601, 110, 116],
          pos = [24418],
          examples =
            [\<lparr> en = [84, 104, 101, 32, 97, 98, 117, 110, 100, 97, 110, 116, 32, 104, 97, 114,
                      118, 101, 115, 116, 32, 102, 101, 100, 32, 116, 104, 101, 32, 118, 105,
                      108, 108, 97, 103, 101, 46],
                ja = [26449, 12399, 35914, 23500, 12394, 21454, 31339, 12391, 28288, 12383,
                      12373, 12428, 12383, 12290] \<rparr>],
          synonyms = [[112, 108, 101, 110, 116, 105, 102, 117, 108],
                      [99, 111, 112, 105, 111, 117, 115]],
          antonyms = [] \<rparr>]"
  using parseSystemEitan_abundant [of 65536] by simp


subsection \<open>Marker groups without a number\<close>


















section \<open>Properties of the review session driver\<close>

lemma find_word_less: "find_word i ws = Some k \<Longrightarrow> k < length ws"
  by (induction ws arbitrary: k) (auto split: if_splits option.splits)

lemma count_matching_frame:
  "map outside_matching (count_matching b now pid ws) = map outside_matching ws"
proof (cases "find_word pid ws")
  case None
  then show ?thesis by (simp add: count_matching_def)
next
  case (Some k)
  then have k: "k < length ws" by (rule find_word_less)
  have "map outside_matching (count_matching b now pid ws) =
        (map outside_matching ws)[k := outside_matching (ws ! k)]"
    using Some
    by (simp add: count_matching_def Let_def map_update outside_matching_def updateWord_def)
  also have "\<dots> = map outside_matching ws"
    using k by (simp add: list_update_same_conv)
  finally show ?thesis .
qed

text \<open>
  C8. A flashcard answer on a stored word replaces its scheduling state by the result
  of \<open>SRS.calculate\<close> at quality 4 when correct and 1 when incorrect; a spelling answer
  (a non-empty input on a question not yet answered) by the result at quality 5 when
  the trimmed, lower-cased input equals the lower-cased word and 1 otherwise. A click
  in the matching game that completes normally leaves, for every word of the session,
  the scheduling state, the identity and the flashcard and spelling counters as they
  were: only the two matching counters (and the save stamp) can change.
\<close>

theorem review_driver_quality_mapping:
  "(fcIndex st < length (studyWords st) \<and> srs (studyWords st ! fcIndex st) = Some s \<longrightarrow>
      (\<exists>st'. answerFlashcard now1 now2 now3 correct st = Inr st' \<and>
         srs (studyWords st' ! fcIndex st) =
           Some (calculate now1 now2 (if correct then 4 else 1)
                   (repetitions s) (easeFactor s) (interval s)))) \<and>
   (\<not> spAnswered st \<and> lower (trim input) \<noteq> [] \<and> spIndex st < length (studyWords st) \<and>
    srs (studyWords st ! spIndex st) = Some s \<longrightarrow>
      (\<exists>st'. checkSpelling lower now1 now2 now3 input st = Inr st' \<and>
         srs (studyWords st' ! spIndex st) =
           Some (calculate now1 now2
                   (if lower (trim input) = lower (word_text (studyWords st ! spIndex st))
                    then 5 else 1)
                   (repetitions s) (easeFactor s) (interval s)))) \<and>
   (handleMatchingTileClick now index st = Inr st' \<longrightarrow>
      map outside_matching (studyWords st') = map outside_matching (studyWords st))"
proof (intro conjI impI)
  assume "fcIndex st < length (studyWords st) \<and> srs (studyWords st ! fcIndex st) = Some s"
  then show "\<exists>st'. answerFlashcard now1 now2 now3 correct st = Inr st' \<and>
         srs (studyWords st' ! fcIndex st) =
           Some (calculate now1 now2 (if correct then 4 else 1)
                   (repetitions s) (easeFactor s) (interval s))"
    by (simp add: answerFlashcard_def Let_def updateWord_def)
next
  assume "\<not> spAnswered st \<and> lower (trim input) \<noteq> [] \<and> spIndex st < length (studyWords st) \<and>
    srs (studyWords st ! spIndex st) = Some s"
  then show "\<exists>st'. checkSpelling lower now1 now2 now3 input st = Inr st' \<and>
         srs (studyWords st' ! spIndex st) =
           Some (calculate now1 now2
                   (if lower (trim input) = lower (word_text (studyWords st ! spIndex st))
                    then 5 else 1)
                   (repetitions s) (easeFactor s) (interval s))"
    by (simp add: checkSpelling_def Let_def updateWord_def)
next
  assume "handleMatchingTileClick now index st = Inr st'"
  then show "map outside_matching (studyWords st') = map outside_matching (studyWords st)"
    by (auto simp: handleMatchingTileClick_def Let_def count_matching_frame
        split: if_splits option.splits prod.splits)
qed

theorem review_driver_quality_mapping_witness:
  "(\<exists>st'. answerFlashcard 1000 1001 1002 True sample_session = Inr st' \<and>
      srs (studyWords st' ! 0) = Some (calculate 1000 1001 4 0 (5 / 2) 0)) \<and>
   (\<exists>st'. checkSpelling toLowerCase 1000 1001 1002 [68, 111, 103, 32] sample_session = Inr st' \<and>
      srs (studyWords st' ! 1) = Some (calculate 1000 1001 5 2 (5 / 2) 6)) \<and>
   (\<exists>st'. handleMatchingTileClick 1000 1 sample_session = Inr st' \<and>
      matchingCorrect (stats (studyWords st' ! 0)) = 1 \<and>
      map outside_matching (studyWords st') = map outside_matching [sample_cat, sample_dog])"
proof -
  let ?dog = "\<lparr> repetitions = 2, easeFactor = 5 / 2, interval = 6,
                 nextReview = Some 9000, lastReview = Some 4000 \<rparr>"
  have f: "fcIndex sample_session < length (studyWords sample_session) \<and>
           srs (studyWords sample_session ! fcIndex sample_session) = Some initialData"
    by (simp add: sample_session_def sample_cat_def)
  have sp: "\<not> spAnswered sample_session \<and> toLowerCase (trim [68, 111, 103, 32]) \<noteq> [] \<and>
            spIndex sample_session < length (studyWords sample_session) \<and>
            srs (studyWords sample_session ! spIndex sample_session) = Some ?dog"
    by (simp add: sample_session_def sample_dog_def toLowerCase_def trim_def is_space_def)
  have eq: "toLowerCase (trim [68, 111, 103, 32]) =
            toLowerCase (word_text (studyWords sample_session ! spIndex sample_session))"
    by (simp add: sample_session_def sample_dog_def toLowerCase_def trim_def is_space_def)
  have "\<exists>st'. handleMatchingTileClick 1000 1 sample_session = Inr st' \<and>
          matchingCorrect (stats (studyWords st' ! 0)) = 1"
    by (simp add: handleMatchingTileClick_def sample_session_def sample_tiles_def
        count_matching_def sample_cat_def sample_dog_def sample_stats_def updateWord_def Let_def)
  then obtain m' where m: "handleMatchingTileClick 1000 1 sample_session = Inr m'"
    and mc: "matchingCorrect (stats (studyWords m' ! 0)) = 1" by blast
  have a: "\<exists>st'. answerFlashcard 1000 1001 1002 True sample_session = Inr st' \<and>
      srs (studyWords st' ! 0) = Some (calculate 1000 1001 4 0 (5 / 2) 0)"
    using f review_driver_quality_mapping [where st = sample_session and s = initialData
        and ?now1.0 = 1000 and ?now2.0 = 1001 and ?now3.0 = 1002 and correct = True]
    by (simp add: sample_session_def initialData_def DEFAULT_EASE_FACTOR_def)
  have b: "\<exists>st'. checkSpelling toLowerCase 1000 1001 1002 [68, 111, 103, 32] sample_session = Inr st' \<and>
      srs (studyWords st' ! 1) = Some (calculate 1000 1001 5 2 (5 / 2) 6)"
    using sp eq review_driver_quality_mapping [where st = sample_session and s = ?dog
        and ?now1.0 = 1000 and ?now2.0 = 1001 and ?now3.0 = 1002 and lower = toLowerCase
        and input = "[68, 111, 103, 32]"]
    by (simp add: sample_session_def)
  have c: "map outside_matching (studyWords m') = map outside_matching [sample_cat, sample_dog]"
    using m review_driver_quality_mapping [where st = sample_session and now = 1000
        and index = 1 and st' = m']
    by (simp add: sample_session_def)
  from a b m mc c show ?thesis by blast
qed

end
